theory Spec2Isabelle
  imports Main "HOL-Library.Multiset"
begin

section \<open>Season standings tracker: entity model\<close>

text \<open>
  The Python module keeps the season in three module-level dictionaries
  (\<^verbatim>\<open>drivers_dict\<close>, \<^verbatim>\<open>teams_dict\<close>, \<^verbatim>\<open>race_dict\<close>) whose values are mutable
  objects. A \<^verbatim>\<open>Driver\<close> object is shared between \<^verbatim>\<open>drivers_dict\<close>, the
  \<^verbatim>\<open>drivers\<close> list of its team and every \<^verbatim>\<open>RaceResult\<close> that mentions it, and
  it stays alive in the latter two after its dictionary entry has been
  overwritten. Objects are therefore kept in explicit stores indexed by
  addresses (natural numbers); a reference is an address. Each store comes
  with the number of objects allocated so far, which is the next fresh address.

  Python integers are \<^typ>\<open>int\<close>; strings are \<^typ>\<open>string\<close> and the model is
  about ASCII text.
\<close>

type_synonym ref = nat

text \<open>\<^verbatim>\<open>class Driver\<close>: \<^verbatim>\<open>name\<close>, \<^verbatim>\<open>team\<close> (a reference to a Team),
  \<^verbatim>\<open>points\<close> (starts at 0), \<^verbatim>\<open>position\<close> (starts as \<^verbatim>\<open>None\<close>).\<close>

record Driver =
  d_name :: string
  d_team :: ref
  d_points :: int
  d_position :: "int option"

text \<open>\<^verbatim>\<open>class Team\<close>: \<^verbatim>\<open>name\<close>, \<^verbatim>\<open>points\<close> (starts at 0), \<^verbatim>\<open>drivers\<close>
  (a list of references to Driver objects, starts empty).\<close>

record Team =
  t_name :: string
  t_points :: int
  t_drivers :: "ref list"

text \<open>\<^verbatim>\<open>class RaceResult\<close>: the driver (a reference) and the position.\<close>

record RaceResult =
  rr_driver :: ref
  rr_position :: int

text \<open>\<^verbatim>\<open>class Race\<close>: \<^verbatim>\<open>name\<close> and the list \<^verbatim>\<open>results\<close> (starts empty).\<close>

record Race =
  r_name :: string
  r_results :: "RaceResult list"

definition new_driver :: "string \<Rightarrow> ref \<Rightarrow> Driver" where
  "new_driver nm tm = \<lparr>d_name = nm, d_team = tm, d_points = 0, d_position = None\<rparr>"

definition new_team :: "string \<Rightarrow> Team" where
  "new_team nm = \<lparr>t_name = nm, t_points = 0, t_drivers = []\<rparr>"

definition new_race :: "string \<Rightarrow> Race" where
  "new_race nm = \<lparr>r_name = nm, r_results = []\<rparr>"

subsection \<open>The scoring table\<close>

text \<open>\<^verbatim>\<open>POINT_SCALE = {1: 25, 2: 18, 3: 15, 4: 12, 5: 10, 6: 8, 7: 6, 8: 4, 9: 2, 10: 1}\<close>\<close>

definition POINT_SCALE :: "(int \<times> int) list" where
  "POINT_SCALE =
     [(1, 25), (2, 18), (3, 15), (4, 12), (5, 10), (6, 8), (7, 6), (8, 4), (9, 2), (10, 1)]"

text \<open>\<^verbatim>\<open>POINT_SCALE.get(p, 0)\<close>\<close>

definition point_scale_get :: "int \<Rightarrow> int" where
  "point_scale_get p = (case map_of POINT_SCALE p of Some v \<Rightarrow> v | None \<Rightarrow> 0)"

subsection \<open>Python dictionaries keyed by strings\<close>

text \<open>
  A \<^verbatim>\<open>dict\<close> iterates in insertion order, and an assignment to a key that is
  already present replaces the value where the key stands. An association
  list with at most one entry per key has both properties.
\<close>

type_synonym 'v pydict = "(string \<times> 'v) list"

definition dict_get :: "'v pydict \<Rightarrow> string \<Rightarrow> 'v option" where
  "dict_get d k = map_of d k"

fun dict_set :: "'v pydict \<Rightarrow> string \<Rightarrow> 'v \<Rightarrow> 'v pydict" where
  "dict_set [] k v = [(k, v)]"
| "dict_set ((k', v') # kvs) k v =
     (if k' = k then (k', v) # kvs else (k', v') # dict_set kvs k v)"

definition dict_values :: "'v pydict \<Rightarrow> 'v list" where
  "dict_values d = map snd d"

subsection \<open>The season state\<close>

record state =
  driver_store :: "ref \<Rightarrow> Driver"
  driver_count :: nat
  team_store :: "ref \<Rightarrow> Team"
  team_count :: nat
  race_store :: "ref \<Rightarrow> Race"
  race_count :: nat
  drivers_dict :: "ref pydict"
  teams_dict :: "ref pydict"
  race_dict :: "ref pydict"

text \<open>The state when the module has been loaded: the three dictionaries are
  empty and no object has been created.\<close>

definition init_state :: state where
  "init_state =
     \<lparr>driver_store = (\<lambda>_. new_driver [] 0), driver_count = 0,
      team_store = (\<lambda>_. new_team []), team_count = 0,
      race_store = (\<lambda>_. new_race []), race_count = 0,
      drivers_dict = [], teams_dict = [], race_dict = []\<rparr>"

subsection \<open>Parsing a position: \<^verbatim>\<open>int(position)\<close>\<close>

text \<open>
  \<^verbatim>\<open>int\<close> applied to a string strips surrounding whitespace, reads an optional
  sign and then decimal digits, where single underscores may stand between
  digits; anything else raises \<^verbatim>\<open>ValueError\<close>, which is \<open>None\<close> here.
\<close>

definition is_space :: "char \<Rightarrow> bool" where
  "is_space c = (c \<in> set [CHR '' '', CHR 0x09, CHR 0x0A, CHR 0x0B, CHR 0x0C, CHR 0x0D,
                           CHR 0x1C, CHR 0x1D, CHR 0x1E, CHR 0x1F])"

definition py_strip :: "string \<Rightarrow> string" where
  "py_strip s = rev (dropWhile is_space (rev (dropWhile is_space s)))"

definition is_digit :: "char \<Rightarrow> bool" where
  "is_digit c = (48 \<le> (of_char c :: nat) \<and> (of_char c :: nat) \<le> 57)"

definition digit_val :: "char \<Rightarrow> int" where
  "digit_val c = int (of_char c) - 48"

fun digits_from :: "int \<Rightarrow> string \<Rightarrow> int option" where
  "digits_from acc [] = Some acc"
| "digits_from acc [c] = (if is_digit c then Some (10 * acc + digit_val c) else None)"
| "digits_from acc (c # c' # cs) =
     (if is_digit c then digits_from (10 * acc + digit_val c) (c' # cs)
      else if c = CHR ''_'' \<and> is_digit c' then digits_from (10 * acc + digit_val c') cs
      else None)"

definition unsigned_literal :: "string \<Rightarrow> int option" where
  "unsigned_literal s =
     (case s of [] \<Rightarrow> None
      | c # cs \<Rightarrow> if is_digit c then digits_from (digit_val c) cs else None)"

definition py_int :: "string \<Rightarrow> int option" where
  "py_int s =
     (case py_strip s of [] \<Rightarrow> None
      | c # cs \<Rightarrow>
          if c = CHR ''-'' then map_option uminus (unsigned_literal cs)
          else if c = CHR ''+'' then unsigned_literal cs
          else unsigned_literal (c # cs))"

section \<open>Operations\<close>

text \<open>
  The interactive functions read lines in a loop. Each definition below is the
  body of one loop iteration, applied to the fields of one input line after
  the loop's own exit test and after the line has been split at the comma
  into its fields and these have been stripped (lines 160, 183 and 199). What
  the source prints is the error value returned.
\<close>

datatype error =
    InvalidInput      \<comment> \<open>\<^verbatim>\<open>"Invalid input, please try again."\<close> in \<^verbatim>\<open>add_driver\<close>\<close>
  | InvalidPosition   \<comment> \<open>\<^verbatim>\<open>"Invalid position."\<close>\<close>
  | UnknownEntity     \<comment> \<open>\<^verbatim>\<open>"Invalid driver name or race name."\<close>\<close>
  | ValueError        \<comment> \<open>the exception raised by \<^verbatim>\<open>int(position)\<close>, which leaves the function\<close>

subsection \<open>\<^verbatim>\<open>add_driver\<close>, lines 161 to 170\<close>

text \<open>
  \<^verbatim>\<open>teams_dict.get(team_name)\<close>, and a new \<^verbatim>\<open>Team\<close> stored under the name when
  there is none. The result is the team's reference and the state.
\<close>

definition get_or_create_team :: "string \<Rightarrow> state \<Rightarrow> ref \<times> state" where
  "get_or_create_team team_name s =
     (case dict_get (teams_dict s) team_name of
        Some t \<Rightarrow> (t, s)
      | None \<Rightarrow>
          (team_count s,
           s\<lparr>team_store := (team_store s)(team_count s := new_team team_name),
             team_count := Suc (team_count s),
             teams_dict := dict_set (teams_dict s) team_name (team_count s)\<rparr>))"

definition add_driver_step :: "string \<Rightarrow> string \<Rightarrow> state \<Rightarrow> error + state" where
  "add_driver_step name team_name s =
     (if name = [] \<or> team_name = [] then Inl InvalidInput
      else
        let (t, s1) = get_or_create_team team_name s;
            d = driver_count s1
        in Inr (s1\<lparr>driver_store := (driver_store s1)(d := new_driver name t),
                   driver_count := Suc d,
                   drivers_dict := dict_set (drivers_dict s1) name d,
                   team_store := (team_store s1)
                     (t := (team_store s1 t)\<lparr>t_drivers := t_drivers (team_store s1 t) @ [d]\<rparr>)\<rparr>))"

subsection \<open>\<^verbatim>\<open>add_race\<close>, lines 184 to 186\<close>

definition add_race_step :: "string \<Rightarrow> state \<Rightarrow> state" where
  "add_race_step name s =
     (if name \<noteq> [] then
        s\<lparr>race_store := (race_store s)(race_count s := new_race name),
          race_count := Suc (race_count s),
          race_dict := dict_set (race_dict s) name (race_count s)\<rparr>
      else s)"

subsection \<open>\<^verbatim>\<open>record_race_result\<close>, lines 201 to 215\<close>

definition record_race_result_step ::
  "string \<Rightarrow> string \<Rightarrow> string \<Rightarrow> state \<Rightarrow> error + state" where
  "record_race_result_step race_name driver_name position s =
     (case py_int position of
        None \<Rightarrow> Inl ValueError
      | Some p \<Rightarrow>
          if p < 1 then Inl InvalidPosition
          else
            (case (dict_get (race_dict s) race_name, dict_get (drivers_dict s) driver_name) of
               (Some race, Some driver) \<Rightarrow>
                 let result = \<lparr>rr_driver = driver, rr_position = p\<rparr>;
                     s1 = s\<lparr>race_store := (race_store s)
                            (race := (race_store s race)
                               \<lparr>r_results := r_results (race_store s race) @ [result]\<rparr>)\<rparr>;
                     points = point_scale_get (rr_position result);
                     d = rr_driver result;
                     s2 = s1\<lparr>driver_store := (driver_store s1)
                            (d := (driver_store s1 d)
                               \<lparr>d_points := d_points (driver_store s1 d) + points\<rparr>)\<rparr>;
                     t = d_team (driver_store s2 d)
                 in Inr (s2\<lparr>team_store := (team_store s2)
                            (t := (team_store s2 t)
                               \<lparr>t_points := t_points (team_store s2 t) + points\<rparr>)\<rparr>)
             | _ \<Rightarrow> Inl UnknownEntity))"

subsection \<open>\<^verbatim>\<open>display_driver_position\<close> and \<^verbatim>\<open>display_team_standings\<close>\<close>

text \<open>
  \<^verbatim>\<open>sorted(xs, key=f, reverse=True)\<close>: the sort is stable, and with
  \<^verbatim>\<open>reverse=True\<close> the list is reversed before and after an ascending stable
  sort, so that elements with equal keys keep their order.
\<close>

definition py_sorted_reverse :: "('a \<Rightarrow> int) \<Rightarrow> 'a list \<Rightarrow> 'a list" where
  "py_sorted_reverse key xs = rev (sort_key key (rev xs))"

text \<open>\<^verbatim>\<open>enumerate(xs, i)\<close>\<close>

fun py_enumerate :: "int \<Rightarrow> 'a list \<Rightarrow> (int \<times> 'a) list" where
  "py_enumerate i [] = []"
| "py_enumerate i (x # xs) = (i, x) # py_enumerate (i + 1) xs"

text \<open>\<^verbatim>\<open>driver.position = i\<close>\<close>

definition set_position :: "state \<Rightarrow> int \<times> ref \<Rightarrow> state" where
  "set_position s p =
     s\<lparr>driver_store := (driver_store s)
        (snd p := (driver_store s (snd p))\<lparr>d_position := Some (fst p)\<rparr>)\<rparr>"

text \<open>The drivers in the order in which they are printed, and the state.\<close>

definition display_driver_position :: "state \<Rightarrow> ref list \<times> state" where
  "display_driver_position s =
     (let sorted_drivers =
            py_sorted_reverse (\<lambda>driver. d_points (driver_store s driver))
              (dict_values (drivers_dict s))
      in (sorted_drivers, foldl set_position s (py_enumerate 1 sorted_drivers)))"

text \<open>The pairs \<open>(i, team)\<close> in the order in which they are printed, and the state.\<close>

definition display_team_standings :: "state \<Rightarrow> (int \<times> ref) list \<times> state" where
  "display_team_standings s =
     (let sorted_teams =
            py_sorted_reverse (\<lambda>team. t_points (team_store s team))
              (dict_values (teams_dict s))
      in (py_enumerate 1 sorted_teams, s))"

subsection \<open>Sequences of operations\<close>

text \<open>
  One entry made through the menu of \<^verbatim>\<open>main\<close>. A failed entry leaves the state
  as it is. The source also defines \<^verbatim>\<open>finish_race\<close>, which scores the results
  of a race once more; no menu choice calls it, and it is not a command here.
\<close>

datatype command =
    AddRace string
  | AddDriver string string
  | RecordResult string string string
  | DisplayPosition
  | DisplayStandings

fun exec :: "command \<Rightarrow> state \<Rightarrow> state" where
  "exec (AddRace name) s = add_race_step name s"
| "exec (AddDriver name team_name) s =
     (case add_driver_step name team_name s of Inl e \<Rightarrow> s | Inr s' \<Rightarrow> s')"
| "exec (RecordResult race_name driver_name position) s =
     (case record_race_result_step race_name driver_name position s of
        Inl e \<Rightarrow> s | Inr s' \<Rightarrow> s')"
| "exec DisplayPosition s = snd (display_driver_position s)"
| "exec DisplayStandings s = snd (display_team_standings s)"

fun run :: "command list \<Rightarrow> state \<Rightarrow> state" where
  "run [] s = s"
| "run (c # cs) s = run cs (exec c s)"

text \<open>A sequence of \<^verbatim>\<open>record_race_result\<close> entries \<open>(race, driver, position)\<close>,
  all of which succeed.\<close>

fun record_all :: "(string \<times> string \<times> string) list \<Rightarrow> state \<Rightarrow> error + state" where
  "record_all [] s = Inr s"
| "record_all ((race_name, driver_name, position) # cs) s =
     (case record_race_result_step race_name driver_name position s of
        Inl e \<Rightarrow> Inl e
      | Inr s' \<Rightarrow> record_all cs s')"

section \<open>Notions used by the properties\<close>

text \<open>
  The points one \<^verbatim>\<open>record_race_result\<close> entry \<open>(race, driver, position)\<close> gives
  to the Driver object \<open>d\<close> in state \<open>s\<close>: the scoring table's value at the
  position, when the entry names \<open>d\<close>.
\<close>

definition call_points :: "state \<Rightarrow> ref \<Rightarrow> string \<times> string \<times> string \<Rightarrow> int" where
  "call_points s d c =
     (case c of (race_name, driver_name, position) \<Rightarrow>
        if dict_get (drivers_dict s) driver_name = Some d
        then (case py_int position of Some p \<Rightarrow> point_scale_get p | None \<Rightarrow> 0)
        else 0)"

definition awarded :: "state \<Rightarrow> ref \<Rightarrow> (string \<times> string \<times> string) list \<Rightarrow> int" where
  "awarded s d calls = sum_list (map (call_points s d) calls)"

text \<open>The points awarded to \<open>d\<close> by the results recorded along a sequence of
  commands: a \<open>RecordResult\<close> command counts when it succeeds.\<close>

fun command_points :: "state \<Rightarrow> ref \<Rightarrow> command \<Rightarrow> int" where
  "command_points s d (RecordResult race_name driver_name position) =
     (case record_race_result_step race_name driver_name position s of
        Inl e \<Rightarrow> 0
      | Inr s' \<Rightarrow> call_points s d (race_name, driver_name, position))"
| "command_points s d (AddRace name) = 0"
| "command_points s d (AddDriver name team_name) = 0"
| "command_points s d DisplayPosition = 0"
| "command_points s d DisplayStandings = 0"

fun awarded_run :: "command list \<Rightarrow> state \<Rightarrow> ref \<Rightarrow> int" where
  "awarded_run [] s d = 0"
| "awarded_run (c # cs) s d = command_points s d c + awarded_run cs (exec c s) d"

text \<open>
  What holds of the objects in every state the commands can reach: the
  dictionaries hold distinct, allocated objects under their own non-empty
  names, every team is registered, and a team's \<^verbatim>\<open>drivers\<close> list holds each
  allocated Driver object of that team once and nothing else.
\<close>

definition wf_state :: "state \<Rightarrow> bool" where
  "wf_state s \<longleftrightarrow>
     distinct (map fst (drivers_dict s)) \<and>
     distinct (map fst (teams_dict s)) \<and>
     distinct (map fst (race_dict s)) \<and>
     distinct (dict_values (drivers_dict s)) \<and>
     (\<forall>(k, d) \<in> set (drivers_dict s).
        d < driver_count s \<and> d_name (driver_store s d) = k \<and> k \<noteq> []) \<and>
     (\<forall>(k, t) \<in> set (teams_dict s). t < team_count s) \<and>
     (\<forall>d < driver_count s. d_team (driver_store s d) < team_count s) \<and>
     (\<forall>t < team_count s.
        t_name (team_store s t) \<noteq> [] \<and>
        dict_get (teams_dict s) (t_name (team_store s t)) = Some t \<and>
        distinct (t_drivers (team_store s t)) \<and>
        set (t_drivers (team_store s t)) =
          {d. d < driver_count s \<and> d_team (driver_store s d) = t})"

text \<open>
  The scenario of the specification's testable properties: drivers \<open>A\<close> on
  team \<open>T1\<close> and \<open>B\<close> on team \<open>T2\<close>, and the race \<open>R1\<close>.
\<close>

definition scenario :: state where
  "scenario = run [AddDriver ''A'' ''T1'', AddDriver ''B'' ''T2'', AddRace ''R1''] init_state"

text \<open>
  The names under which a sequence of commands registers drivers, in the order
  of the commands (\<^verbatim>\<open>add_driver\<close> rejects an empty name or team name), and
  the order in which names are registered for the first time.
\<close>

fun registered_names :: "command list \<Rightarrow> string list" where
  "registered_names [] = []"
| "registered_names (AddDriver name team_name # cs) =
     (if name = [] \<or> team_name = [] then registered_names cs
      else name # registered_names cs)"
| "registered_names (c # cs) = registered_names cs"

fun first_registrations :: "string list \<Rightarrow> string list \<Rightarrow> string list" where
  "first_registrations seen [] = seen"
| "first_registrations seen (n # ns) =
     first_registrations (if n \<in> set seen then seen else seen @ [n]) ns"

text \<open>The scenario after \<open>B\<close> has won the race \<open>R1\<close> and \<open>A\<close> has come second.\<close>

definition scenario_scored :: state where
  "scenario_scored =
     run [RecordResult ''R1'' ''B'' ''1'', RecordResult ''R1'' ''A'' ''2''] scenario"

text \<open>Every Team object has the points of the Driver objects in its
  \<^verbatim>\<open>drivers\<close> list, added up.\<close>

definition team_points_ok :: "state \<Rightarrow> bool" where
  "team_points_ok s \<longleftrightarrow>
     (\<forall>t < team_count s.
        t_points (team_store s t) =
          sum_list (map (\<lambda>d. d_points (driver_store s d)) (t_drivers (team_store s t))))"

text \<open>Addresses not yet allocated hold no points.\<close>

definition unused_zero :: "state \<Rightarrow> bool" where
  "unused_zero s \<longleftrightarrow> (\<forall>d. driver_count s \<le> d \<longrightarrow> d_points (driver_store s d) = 0)"

section \<open>Facts about the scoring table and the dictionaries\<close>

lemma point_scale_get_cases:
  "point_scale_get p =
     (if p = 1 then 25 else if p = 2 then 18 else if p = 3 then 15 else if p = 4 then 12
      else if p = 5 then 10 else if p = 6 then 8 else if p = 7 then 6 else if p = 8 then 4
      else if p = 9 then 2 else if p = 10 then 1 else 0)"
  by (simp add: point_scale_get_def POINT_SCALE_def)

lemma point_scale_get_outside: "p < 1 \<or> 10 < p \<Longrightarrow> point_scale_get p = 0"
  by (auto simp: point_scale_get_cases)

lemma dict_get_set: "dict_get (dict_set d k v) k' = (if k' = k then Some v else dict_get d k')"
  by (induction d) (auto simp: dict_get_def)

lemma dict_set_new: "dict_get d k = None \<Longrightarrow> dict_set d k v = d @ [(k, v)]"
  by (induction d) (auto simp: dict_get_def split: if_splits)

lemma dict_set_old:
  "dict_get d k = Some v' \<Longrightarrow>
   \<exists>xs ys. d = xs @ (k, v') # ys \<and> k \<notin> fst ` set xs \<and> dict_set d k v = xs @ (k, v) # ys"
proof (induction d)
  case Nil
  then show ?case by (simp add: dict_get_def)
next
  case (Cons a d)
  obtain k0 v0 where a: "a = (k0, v0)" by (cases a)
  show ?case
  proof (cases "k0 = k")
    case True
    with Cons.prems a have "v0 = v'" by (simp add: dict_get_def)
    with True a have "a # d = [] @ (k, v') # d \<and> k \<notin> fst ` set [] \<and>
        dict_set (a # d) k v = [] @ (k, v) # d" by simp
    then show ?thesis by blast
  next
    case False
    with Cons.prems a have "dict_get d k = Some v'" by (simp add: dict_get_def)
    from Cons.IH [OF this] obtain xs ys where
      "d = xs @ (k, v') # ys" "k \<notin> fst ` set xs" "dict_set d k v = xs @ (k, v) # ys" by blast
    with False a have "a # d = (a # xs) @ (k, v') # ys \<and> k \<notin> fst ` set (a # xs) \<and>
        dict_set (a # d) k v = (a # xs) @ (k, v) # ys" by auto
    then show ?thesis by blast
  qed
qed

lemma keys_dict_set:
  "map fst (dict_set d k v) = (if dict_get d k = None then map fst d @ [k] else map fst d)"
proof (cases "dict_get d k")
  case None
  then show ?thesis by (simp add: dict_set_new)
next
  case (Some v')
  from dict_set_old [OF this, of v] show ?thesis using Some by auto
qed

lemma dict_get_None_iff: "dict_get d k = None \<longleftrightarrow> k \<notin> fst ` set d"
  by (simp add: dict_get_def map_of_eq_None_iff)

lemma distinct_keys_dict_set: "distinct (map fst d) \<Longrightarrow> distinct (map fst (dict_set d k v))"
  by (auto simp: keys_dict_set dict_get_None_iff)

lemma set_dict_values_set: "set (dict_values (dict_set d k v)) \<subseteq> insert v (set (dict_values d))"
proof (cases "dict_get d k")
  case None
  then show ?thesis by (auto simp: dict_set_new dict_values_def)
next
  case (Some v')
  from dict_set_old [OF this, of v] show ?thesis by (auto simp: dict_values_def)
qed

lemma distinct_dict_values_set:
  "distinct (dict_values d) \<Longrightarrow> v \<notin> set (dict_values d) \<Longrightarrow> distinct (dict_values (dict_set d k v))"
proof (cases "dict_get d k")
  case None
  assume "distinct (dict_values d)" "v \<notin> set (dict_values d)"
  with None show ?thesis by (auto simp: dict_set_new dict_values_def)
next
  case (Some v')
  assume "distinct (dict_values d)" "v \<notin> set (dict_values d)"
  with dict_set_old [OF Some, of v] show ?thesis by (auto simp: dict_values_def)
qed

lemma record_step_Inr:
  "record_race_result_step race_name driver_name position s = Inr s' \<longleftrightarrow>
     (\<exists>p race driver. py_int position = Some p \<and> 1 \<le> p \<and>
        dict_get (race_dict s) race_name = Some race \<and>
        dict_get (drivers_dict s) driver_name = Some driver \<and>
        s' = s\<lparr>race_store := (race_store s)
                (race := (race_store s race)
                   \<lparr>r_results := r_results (race_store s race)
                      @ [\<lparr>rr_driver = driver, rr_position = p\<rparr>]\<rparr>),
              driver_store := (driver_store s)
                (driver := (driver_store s driver)
                   \<lparr>d_points := d_points (driver_store s driver) + point_scale_get p\<rparr>),
              team_store := (team_store s)
                (d_team (driver_store s driver) := (team_store s (d_team (driver_store s driver)))
                   \<lparr>t_points := t_points (team_store s (d_team (driver_store s driver)))
                      + point_scale_get p\<rparr>)\<rparr>)"
  by (auto simp: record_race_result_step_def Let_def split: option.splits)

lemma record_step_Inl:
  "record_race_result_step race_name driver_name position s = Inl e \<longleftrightarrow>
     (case py_int position of None \<Rightarrow> e = ValueError
      | Some p \<Rightarrow> if p < 1 then e = InvalidPosition
          else e = UnknownEntity \<and>
            (dict_get (race_dict s) race_name = None \<or> dict_get (drivers_dict s) driver_name = None))"
  by (auto simp: record_race_result_step_def Let_def split: option.splits)

lemma set_dict_set: "set (dict_set d k v) \<subseteq> insert (k, v) (set d)"
proof (cases "dict_get d k")
  case None
  then show ?thesis by (auto simp: dict_set_new)
next
  case (Some v')
  from dict_set_old [OF this, of v] show ?thesis by auto
qed

lemma dict_get_in_set: "dict_get d k = Some v \<Longrightarrow> (k, v) \<in> set d"
  by (simp add: dict_get_def map_of_SomeD)

section \<open>The reachable states are well formed\<close>

lemma wf_init: "wf_state init_state"
  by (simp add: wf_state_def init_state_def dict_values_def dict_get_def)

lemma wf_add_race: "wf_state s \<Longrightarrow> wf_state (add_race_step name s)"
  by (simp add: wf_state_def add_race_step_def distinct_keys_dict_set)

lemma wf_same:
  assumes "wf_state s"
    and "drivers_dict s' = drivers_dict s" "teams_dict s' = teams_dict s"
    and "race_dict s' = race_dict s"
    and "driver_count s' = driver_count s" "team_count s' = team_count s"
    and "\<And>d. d_team (driver_store s' d) = d_team (driver_store s d)"
    and "\<And>d. d_name (driver_store s' d) = d_name (driver_store s d)"
    and "\<And>t. t_name (team_store s' t) = t_name (team_store s t)"
    and "\<And>t. t_drivers (team_store s' t) = t_drivers (team_store s t)"
  shows "wf_state s'"
  using assms by (simp add: wf_state_def)

lemma wf_record:
  assumes "wf_state s" "record_race_result_step rn dn ps s = Inr s'"
  shows "wf_state s'"
proof -
  from assms(2) obtain p race driver where
    s': "s' = s\<lparr>race_store := (race_store s)
                (race := (race_store s race)
                   \<lparr>r_results := r_results (race_store s race)
                      @ [\<lparr>rr_driver = driver, rr_position = p\<rparr>]\<rparr>),
              driver_store := (driver_store s)
                (driver := (driver_store s driver)
                   \<lparr>d_points := d_points (driver_store s driver) + point_scale_get p\<rparr>),
              team_store := (team_store s)
                (d_team (driver_store s driver) := (team_store s (d_team (driver_store s driver)))
                   \<lparr>t_points := t_points (team_store s (d_team (driver_store s driver)))
                      + point_scale_get p\<rparr>)\<rparr>"
    unfolding record_step_Inr by blast
  show ?thesis by (rule wf_same [OF assms(1)]) (simp_all add: s')
qed

lemma foldl_set_position_fields:
  "drivers_dict (foldl set_position s ps) = drivers_dict s"
  "teams_dict (foldl set_position s ps) = teams_dict s"
  "race_dict (foldl set_position s ps) = race_dict s"
  "driver_count (foldl set_position s ps) = driver_count s"
  "team_count (foldl set_position s ps) = team_count s"
  "race_count (foldl set_position s ps) = race_count s"
  "team_store (foldl set_position s ps) = team_store s"
  "race_store (foldl set_position s ps) = race_store s"
  "d_name (driver_store (foldl set_position s ps) d) = d_name (driver_store s d)"
  "d_team (driver_store (foldl set_position s ps) d) = d_team (driver_store s d)"
  "d_points (driver_store (foldl set_position s ps) d) = d_points (driver_store s d)"
  by (induction ps arbitrary: s; simp add: set_position_def)+

lemma wf_display_driver_position: "wf_state s \<Longrightarrow> wf_state (snd (display_driver_position s))"
  by (rule wf_same) (simp_all add: display_driver_position_def Let_def foldl_set_position_fields)

lemma wf_create_team:
  assumes "wf_state s" "team_name \<noteq> []" "dict_get (teams_dict s) team_name = None"
  shows "wf_state (s\<lparr>team_store := (team_store s)(team_count s := new_team team_name),
             team_count := Suc (team_count s),
             teams_dict := dict_set (teams_dict s) team_name (team_count s)\<rparr>)"
  using assms unfolding wf_state_def
  apply (simp add: distinct_keys_dict_set dict_get_set new_team_def)
  apply (intro conjI)
  subgoal using set_dict_set [of "teams_dict s" team_name "team_count s"] by fastforce
  subgoal by (metis less_Suc_eq)
  subgoal by (auto simp: less_Suc_eq)
  done

lemma wf_append_driver:
  assumes "wf_state s" "name \<noteq> []" "t < team_count s"
  shows "wf_state (s\<lparr>driver_store := (driver_store s)(driver_count s := new_driver name t),
                   driver_count := Suc (driver_count s),
                   drivers_dict := dict_set (drivers_dict s) name (driver_count s),
                   team_store := (team_store s)
                     (t := (team_store s t)\<lparr>t_drivers := t_drivers (team_store s t) @ [driver_count s]\<rparr>)\<rparr>)"
proof -
  have fresh: "driver_count s \<notin> set (dict_values (drivers_dict s))"
    using assms(1) by (fastforce simp: wf_state_def dict_values_def)
  show ?thesis
  using assms fresh unfolding wf_state_def
  apply (simp add: distinct_keys_dict_set distinct_dict_values_set new_driver_def)
  apply (intro conjI)
  subgoal using set_dict_set [of "drivers_dict s" name "driver_count s"] by fastforce
  subgoal by (auto simp: less_Suc_eq)
  done
qed


lemma wf_add_driver:
  assumes "wf_state s" "add_driver_step name team_name s = Inr s'"
  shows "wf_state s'"
proof -
  from assms(2) have ne: "name \<noteq> []" "team_name \<noteq> []"
    by (auto simp: add_driver_step_def split: if_splits)
  obtain t s1 where g: "get_or_create_team team_name s = (t, s1)" by (cases "get_or_create_team team_name s")
  have "wf_state s1 \<and> t < team_count s1"
  proof (cases "dict_get (teams_dict s) team_name")
    case None
    with g have "s1 = s\<lparr>team_store := (team_store s)(team_count s := new_team team_name),
             team_count := Suc (team_count s),
             teams_dict := dict_set (teams_dict s) team_name (team_count s)\<rparr>" "t = team_count s"
      by (auto simp: get_or_create_team_def)
    with wf_create_team [OF assms(1) ne(2) None] show ?thesis by simp
  next
    case (Some t')
    with g have "s1 = s" "t = t'" by (auto simp: get_or_create_team_def)
    with assms(1) Some show ?thesis by (auto simp: wf_state_def dest!: dict_get_in_set)
  qed
  with wf_append_driver [of s1 name t] ne have "wf_state (s1\<lparr>driver_store := (driver_store s1)(driver_count s1 := new_driver name t),
                   driver_count := Suc (driver_count s1),
                   drivers_dict := dict_set (drivers_dict s1) name (driver_count s1),
                   team_store := (team_store s1)
                     (t := (team_store s1 t)\<lparr>t_drivers := t_drivers (team_store s1 t) @ [driver_count s1]\<rparr>)\<rparr>)" by simp
  moreover from assms(2) g ne have "s' = s1\<lparr>driver_store := (driver_store s1)(driver_count s1 := new_driver name t),
                   driver_count := Suc (driver_count s1),
                   drivers_dict := dict_set (drivers_dict s1) name (driver_count s1),
                   team_store := (team_store s1)
                     (t := (team_store s1 t)\<lparr>t_drivers := t_drivers (team_store s1 t) @ [driver_count s1]\<rparr>)\<rparr>"
    by (simp add: add_driver_step_def Let_def)
  ultimately show ?thesis by simp
qed

lemma wf_exec: "wf_state s \<Longrightarrow> wf_state (exec c s)"
proof (cases c)
  case (AddRace x1)
  assume "wf_state s" with AddRace show ?thesis by (simp add: wf_add_race)
next
  case (AddDriver x21 x22)
  assume "wf_state s" with AddDriver show ?thesis by (auto split: sum.splits intro: wf_add_driver)
next
  case (RecordResult x31 x32 x33)
  assume "wf_state s" with RecordResult show ?thesis by (auto split: sum.splits intro: wf_record)
next
  case DisplayPosition
  assume "wf_state s" with DisplayPosition show ?thesis by (simp add: wf_display_driver_position)
next
  case DisplayStandings
  assume "wf_state s" with DisplayStandings show ?thesis by (simp add: display_team_standings_def Let_def)
qed

lemma wf_run_from: "wf_state s \<Longrightarrow> wf_state (run cs s)"
  by (induction cs arbitrary: s) (auto intro: wf_exec)

lemma wf_run: "wf_state (run cs init_state)"
  by (rule wf_run_from [OF wf_init])

section \<open>Recording a result\<close>

lemma record_step_fields:
  assumes "record_race_result_step race_name driver_name position s = Inr s'"
    and "dict_get (race_dict s) race_name = Some race"
    and "dict_get (drivers_dict s) driver_name = Some driver"
    and "py_int position = Some p"
  shows "race_store s' = (race_store s)
       (race := (race_store s race)
          \<lparr>r_results := r_results (race_store s race)
             @ [\<lparr>rr_driver = driver, rr_position = p\<rparr>]\<rparr>)"
    "driver_store s' = (driver_store s)
       (driver := (driver_store s driver)
          \<lparr>d_points := d_points (driver_store s driver) + point_scale_get p\<rparr>)"
    "team_store s' = (team_store s)
       (d_team (driver_store s driver) := (team_store s (d_team (driver_store s driver)))
          \<lparr>t_points := t_points (team_store s (d_team (driver_store s driver)))
             + point_scale_get p\<rparr>)"
    "driver_count s' = driver_count s" "team_count s' = team_count s"
    "race_count s' = race_count s" "drivers_dict s' = drivers_dict s"
    "teams_dict s' = teams_dict s" "race_dict s' = race_dict s"
  using assms unfolding record_step_Inr by auto

text \<open>
  Claim C5. A successful \<^verbatim>\<open>record_race_result\<close> entry changes the state in
  three places only: one \<open>RaceResult\<close> (the named driver, the position) is
  appended to the results of the named race, the scoring table's points for
  the position are added to the points of the named driver, and the same
  points are added to the points of that driver's team. Every other object in
  the three stores, every other field of the three objects, the three
  dictionaries and the allocation counters are as before: the stores after the
  entry are the stores before it, updated at one address each.
\<close>

theorem record_result_frame:
  assumes "record_race_result_step race_name driver_name position s = Inr s'"
  shows "\<exists>race driver p.
     dict_get (race_dict s) race_name = Some race \<and>
     dict_get (drivers_dict s) driver_name = Some driver \<and>
     py_int position = Some p \<and>
     race_store s' = (race_store s)
       (race := (race_store s race)
          \<lparr>r_results := r_results (race_store s race)
             @ [\<lparr>rr_driver = driver, rr_position = p\<rparr>]\<rparr>) \<and>
     driver_store s' = (driver_store s)
       (driver := (driver_store s driver)
          \<lparr>d_points := d_points (driver_store s driver) + point_scale_get p\<rparr>) \<and>
     team_store s' = (team_store s)
       (d_team (driver_store s driver) := (team_store s (d_team (driver_store s driver)))
          \<lparr>t_points := t_points (team_store s (d_team (driver_store s driver)))
             + point_scale_get p\<rparr>) \<and>
     driver_count s' = driver_count s \<and> team_count s' = team_count s \<and>
     race_count s' = race_count s \<and> drivers_dict s' = drivers_dict s \<and>
     teams_dict s' = teams_dict s \<and> race_dict s' = race_dict s"
proof -
  from assms obtain p race driver where
    h: "py_int position = Some p" "dict_get (race_dict s) race_name = Some race"
       "dict_get (drivers_dict s) driver_name = Some driver"
    and s': "s' = s\<lparr>race_store := (race_store s)
                (race := (race_store s race)
                   \<lparr>r_results := r_results (race_store s race)
                      @ [\<lparr>rr_driver = driver, rr_position = p\<rparr>]\<rparr>),
              driver_store := (driver_store s)
                (driver := (driver_store s driver)
                   \<lparr>d_points := d_points (driver_store s driver) + point_scale_get p\<rparr>),
              team_store := (team_store s)
                (d_team (driver_store s driver) := (team_store s (d_team (driver_store s driver)))
                   \<lparr>t_points := t_points (team_store s (d_team (driver_store s driver)))
                      + point_scale_get p\<rparr>)\<rparr>"
    unfolding record_step_Inr by blast
  show ?thesis
    apply (rule exI [of _ race], rule exI [of _ driver], rule exI [of _ p])
    apply (simp add: h s')
    done
qed

lemma scenario_record_ok:
  "\<not> isl (record_race_result_step ''R1'' ''A'' ''1'' scenario)"
  by code_simp

theorem record_result_frame_witness:
  "\<exists>s'. record_race_result_step ''R1'' ''A'' ''1'' scenario = Inr s' \<and>
     (\<exists>race driver p.
     dict_get (race_dict scenario) ''R1'' = Some race \<and>
     dict_get (drivers_dict scenario) ''A'' = Some driver \<and>
     py_int ''1'' = Some p \<and>
     race_store s' = (race_store scenario)
       (race := (race_store scenario race)
          \<lparr>r_results := r_results (race_store scenario race)
             @ [\<lparr>rr_driver = driver, rr_position = p\<rparr>]\<rparr>) \<and>
     driver_store s' = (driver_store scenario)
       (driver := (driver_store scenario driver)
          \<lparr>d_points := d_points (driver_store scenario driver) + point_scale_get p\<rparr>) \<and>
     team_store s' = (team_store scenario)
       (d_team (driver_store scenario driver) := (team_store scenario (d_team (driver_store scenario driver)))
          \<lparr>t_points := t_points (team_store scenario (d_team (driver_store scenario driver)))
             + point_scale_get p\<rparr>) \<and>
     driver_count s' = driver_count scenario \<and> team_count s' = team_count scenario \<and>
     race_count s' = race_count scenario \<and> drivers_dict s' = drivers_dict scenario \<and>
     teams_dict s' = teams_dict scenario \<and> race_dict s' = race_dict scenario)"
proof -
  from scenario_record_ok obtain s' where
    h: "record_race_result_step ''R1'' ''A'' ''1'' scenario = Inr s'"
    by (cases "record_race_result_step ''R1'' ''A'' ''1'' scenario") auto
  from record_result_frame [OF h] h show ?thesis by blast
qed

lemma scenario_lookups:
  "dict_get (race_dict scenario) ''R1'' = Some 0"
  "dict_get (drivers_dict scenario) ''A'' = Some 0"
  "dict_get (drivers_dict scenario) ''B'' = Some 1"
  "dict_get (race_dict scenario) ''R2'' = None"
  "dict_get (drivers_dict scenario) ''Z'' = None"
  by code_simp+

lemma py_int_examples:
  "py_int ''1'' = Some 1" "py_int ''2'' = Some 2" "py_int ''0'' = Some 0" "py_int ''abc'' = None"
  "py_int ''11'' = Some 11"
  by code_simp+

text \<open>
  Claim C7. Recording is not idempotent. For a registered race and driver and a
  position that is an integer of at least 1 (the positions
  \<^verbatim>\<open>record_race_result\<close> accepts), the same entry made twice succeeds both
  times; after it the driver and the driver's team have the scoring table's
  points for the position twice, the race has two more results, and the
  second entry has changed the state again.
\<close>

theorem record_result_twice:
  assumes "dict_get (race_dict s) race_name = Some race"
    and "dict_get (drivers_dict s) driver_name = Some driver"
    and "py_int position = Some p" and "1 \<le> p"
  shows "\<exists>s1 s2.
     record_race_result_step race_name driver_name position s = Inr s1 \<and>
     record_race_result_step race_name driver_name position s1 = Inr s2 \<and>
     d_points (driver_store s2 driver) =
       d_points (driver_store s driver) + 2 * point_scale_get p \<and>
     t_points (team_store s2 (d_team (driver_store s driver))) =
       t_points (team_store s (d_team (driver_store s driver))) + 2 * point_scale_get p \<and>
     r_results (race_store s2 race) =
       r_results (race_store s race)
         @ [\<lparr>rr_driver = driver, rr_position = p\<rparr>, \<lparr>rr_driver = driver, rr_position = p\<rparr>] \<and>
     s2 \<noteq> s1"
proof -
  obtain s1 where s1: "record_race_result_step race_name driver_name position s = Inr s1"
    using assms by (auto simp: record_step_Inr)
  from record_step_fields [OF s1 assms(1,2,3)] have f1:
    "race_store s1 = (race_store s)
       (race := (race_store s race)
          \<lparr>r_results := r_results (race_store s race)
             @ [\<lparr>rr_driver = driver, rr_position = p\<rparr>]\<rparr>)"
    "driver_store s1 = (driver_store s)
       (driver := (driver_store s driver)
          \<lparr>d_points := d_points (driver_store s driver) + point_scale_get p\<rparr>)"
    "team_store s1 = (team_store s)
       (d_team (driver_store s driver) := (team_store s (d_team (driver_store s driver)))
          \<lparr>t_points := t_points (team_store s (d_team (driver_store s driver)))
             + point_scale_get p\<rparr>)"
    "drivers_dict s1 = drivers_dict s" "race_dict s1 = race_dict s"
    by auto
  obtain s2 where s2: "record_race_result_step race_name driver_name position s1 = Inr s2"
    using assms f1 by (auto simp: record_step_Inr)
  from f1 assms have "dict_get (race_dict s1) race_name = Some race" "dict_get (drivers_dict s1) driver_name = Some driver" by simp_all
  from record_step_fields [OF s2 this assms(3)] have f2:
    "race_store s2 = (race_store s1)
       (race := (race_store s1 race)
          \<lparr>r_results := r_results (race_store s1 race)
             @ [\<lparr>rr_driver = driver, rr_position = p\<rparr>]\<rparr>)"
    "driver_store s2 = (driver_store s1)
       (driver := (driver_store s1 driver)
          \<lparr>d_points := d_points (driver_store s1 driver) + point_scale_get p\<rparr>)"
    "team_store s2 = (team_store s1)
       (d_team (driver_store s1 driver) := (team_store s1 (d_team (driver_store s1 driver)))
          \<lparr>t_points := t_points (team_store s1 (d_team (driver_store s1 driver)))
             + point_scale_get p\<rparr>)"
    by auto
  have "r_results (race_store s2 race) \<noteq> r_results (race_store s1 race)"
    by (simp add: f2)
  then have ne: "s2 \<noteq> s1" by auto
  have "d_points (driver_store s2 driver) =
       d_points (driver_store s driver) + 2 * point_scale_get p \<and>
     t_points (team_store s2 (d_team (driver_store s driver))) =
       t_points (team_store s (d_team (driver_store s driver))) + 2 * point_scale_get p \<and>
     r_results (race_store s2 race) =
       r_results (race_store s race)
         @ [\<lparr>rr_driver = driver, rr_position = p\<rparr>, \<lparr>rr_driver = driver, rr_position = p\<rparr>]"
    by (simp add: f1 f2)
  with s1 s2 ne show ?thesis by blast
qed

theorem record_result_twice_witness:
  "dict_get (race_dict scenario) ''R1'' = Some 0 \<and>
   dict_get (drivers_dict scenario) ''A'' = Some 0 \<and>
   py_int ''1'' = Some 1 \<and> (1::int) \<le> 1 \<and>
   (\<exists>s1 s2.
     record_race_result_step ''R1'' ''A'' ''1'' scenario = Inr s1 \<and>
     record_race_result_step ''R1'' ''A'' ''1'' s1 = Inr s2 \<and>
     d_points (driver_store s2 0) = 50 \<and>
     t_points (team_store s2 0) = 50 \<and>
     r_results (race_store s2 0) =
       [\<lparr>rr_driver = 0, rr_position = 1\<rparr>, \<lparr>rr_driver = 0, rr_position = 1\<rparr>] \<and>
     s2 \<noteq> s1)"
proof -
  have v: "d_points (driver_store scenario 0) = 0" "d_team (driver_store scenario 0) = 0"
    "t_points (team_store scenario 0) = 0" "r_results (race_store scenario 0) = []"
    by code_simp+
  from record_result_twice [OF scenario_lookups(1) scenario_lookups(2) py_int_examples(1)]
  show ?thesis
    by (simp add: scenario_lookups py_int_examples v point_scale_get_cases)
qed

section \<open>Failed entries\<close>

lemma exec_record_failed:
  "record_race_result_step race_name driver_name position s = Inl e \<Longrightarrow>
   exec (RecordResult race_name driver_name position) s = s"
  by simp

text \<open>
  Claim C2, as stated, fails for a position that is not numeric:
  \<^verbatim>\<open>int(position)\<close> raises \<^verbatim>\<open>ValueError\<close> before the test that prints
  \<^verbatim>\<open>"Invalid position."\<close> is reached, so the entry \<open>abc\<close> for a registered race
  and driver ends in \<open>ValueError\<close> and not in \<open>InvalidPosition\<close>.
\<close>

theorem record_result_non_numeric_counterexample:
  "record_race_result_step ''R1'' ''A'' ''abc'' scenario = Inl ValueError \<and>
   record_race_result_step ''R1'' ''A'' ''abc'' scenario \<noteq> Inl InvalidPosition"
  by (simp add: record_step_Inl py_int_examples)

text \<open>
  Claim C2, amended. A \<^verbatim>\<open>record_race_result\<close> entry fails with \<open>ValueError\<close> when
  the position is not an integer literal, with \<open>InvalidPosition\<close> when the
  position is an integer below 1 (such as 0), and with \<open>UnknownEntity\<close> when
  the position is an integer of at least 1 and the race name or the driver
  name is not registered. In every failure case the state is left as it was:
  no points and no result sequence change.
\<close>

theorem record_result_failures:
  "(py_int position = None \<longrightarrow>
      record_race_result_step race_name driver_name position s = Inl ValueError) \<and>
   (\<forall>p. py_int position = Some p \<and> p < 1 \<longrightarrow>
      record_race_result_step race_name driver_name position s = Inl InvalidPosition) \<and>
   (\<forall>p. py_int position = Some p \<and> 1 \<le> p \<and>
        (dict_get (race_dict s) race_name = None \<or>
         dict_get (drivers_dict s) driver_name = None) \<longrightarrow>
      record_race_result_step race_name driver_name position s = Inl UnknownEntity) \<and>
   (\<forall>e. record_race_result_step race_name driver_name position s = Inl e \<longrightarrow>
      exec (RecordResult race_name driver_name position) s = s)"
proof (intro conjI allI impI)
  assume "py_int position = None"
  then show "record_race_result_step race_name driver_name position s = Inl ValueError"
    by (simp add: record_step_Inl)
next
  fix p assume "py_int position = Some p \<and> p < 1"
  then show "record_race_result_step race_name driver_name position s = Inl InvalidPosition"
    by (simp add: record_step_Inl)
next
  fix p assume "py_int position = Some p \<and> 1 \<le> p \<and>
        (dict_get (race_dict s) race_name = None \<or>
         dict_get (drivers_dict s) driver_name = None)"
  then show "record_race_result_step race_name driver_name position s = Inl UnknownEntity"
    by (auto simp: record_step_Inl)
next
  fix e assume "record_race_result_step race_name driver_name position s = Inl e"
  then show "exec (RecordResult race_name driver_name position) s = s"
    by (rule exec_record_failed)
qed

theorem record_result_failures_witness:
  "py_int ''abc'' = None \<and>
   record_race_result_step ''R1'' ''A'' ''abc'' scenario = Inl ValueError \<and>
   exec (RecordResult ''R1'' ''A'' ''abc'') scenario = scenario \<and>
   py_int ''0'' = Some 0 \<and>
   record_race_result_step ''R1'' ''A'' ''0'' scenario = Inl InvalidPosition \<and>
   exec (RecordResult ''R1'' ''A'' ''0'') scenario = scenario \<and>
   py_int ''1'' = Some 1 \<and> dict_get (drivers_dict scenario) ''Z'' = None \<and>
   record_race_result_step ''R1'' ''Z'' ''1'' scenario = Inl UnknownEntity \<and>
   exec (RecordResult ''R1'' ''Z'' ''1'') scenario = scenario \<and>
   dict_get (race_dict scenario) ''R2'' = None \<and>
   record_race_result_step ''R2'' ''A'' ''1'' scenario = Inl UnknownEntity \<and>
   exec (RecordResult ''R2'' ''A'' ''1'') scenario = scenario"
proof -
  have a: "record_race_result_step ''R1'' ''A'' ''abc'' scenario = Inl ValueError"
    using record_result_failures [where position = "''abc''" and race_name = "''R1''" and driver_name = "''A''" and s = scenario]
    by (simp add: py_int_examples)
  have b: "record_race_result_step ''R1'' ''A'' ''0'' scenario = Inl InvalidPosition"
    using record_result_failures [where position = "''0''" and race_name = "''R1''" and driver_name = "''A''" and s = scenario]
    by (simp add: py_int_examples)
  have c: "record_race_result_step ''R1'' ''Z'' ''1'' scenario = Inl UnknownEntity"
    using record_result_failures [where position = "''1''" and race_name = "''R1''" and driver_name = "''Z''" and s = scenario]
    by (simp add: py_int_examples scenario_lookups)
  have d: "record_race_result_step ''R2'' ''A'' ''1'' scenario = Inl UnknownEntity"
    using record_result_failures [where position = "''1''" and race_name = "''R2''" and driver_name = "''A''" and s = scenario]
    by (simp add: py_int_examples scenario_lookups)
  from a b c d show ?thesis
    using record_result_failures [where position = "''abc''" and race_name = "''R1''" and driver_name = "''A''" and s = scenario]
    by (simp add: py_int_examples scenario_lookups)
qed

text \<open>
  Claim C8, as stated, fails: an entry whose race is missing (and whose driver
  is registered) and an entry whose driver is missing (and whose race is
  registered) end in the same error, so the error does not tell which of the
  two was missing.
\<close>

theorem unknown_entity_names_missing_counterexample:
  "dict_get (race_dict scenario) ''R2'' = None \<and>
   dict_get (drivers_dict scenario) ''A'' = Some 0 \<and>
   dict_get (race_dict scenario) ''R1'' = Some 0 \<and>
   dict_get (drivers_dict scenario) ''Z'' = None \<and>
   record_race_result_step ''R2'' ''A'' ''1'' scenario = Inl UnknownEntity \<and>
   record_race_result_step ''R1'' ''Z'' ''1'' scenario = Inl UnknownEntity \<and>
   record_race_result_step ''R2'' ''A'' ''1'' scenario =
     record_race_result_step ''R1'' ''Z'' ''1'' scenario"
proof -
  have a: "record_race_result_step ''R2'' ''A'' ''1'' scenario = Inl UnknownEntity"
    by (simp add: record_step_Inl py_int_examples scenario_lookups)
  have b: "record_race_result_step ''R1'' ''Z'' ''1'' scenario = Inl UnknownEntity"
    by (simp add: record_step_Inl py_int_examples scenario_lookups)
  show ?thesis by (simp add: a b scenario_lookups)
qed

text \<open>
  Claim C8, amended. \<^verbatim>\<open>record_race_result\<close> has one error for an unknown entity,
  the message \<^verbatim>\<open>"Invalid driver name or race name."\<close>: an entry ends in it
  exactly when its position is an integer of at least 1 and the race, the
  driver or both are not registered.
\<close>

theorem unknown_entity_single_error:
  "record_race_result_step race_name driver_name position s = Inl UnknownEntity \<longleftrightarrow>
     (\<exists>p. py_int position = Some p \<and> 1 \<le> p) \<and>
     (dict_get (race_dict s) race_name = None \<or>
      dict_get (drivers_dict s) driver_name = None)"
  by (auto simp: record_step_Inl split: option.splits)

theorem unknown_entity_single_error_witness:
  "record_race_result_step ''R2'' ''A'' ''1'' scenario = Inl UnknownEntity \<and>
   record_race_result_step ''R1'' ''Z'' ''1'' scenario = Inl UnknownEntity \<and>
   record_race_result_step ''R2'' ''Z'' ''1'' scenario = Inl UnknownEntity"
proof -
  have p: "\<exists>p. py_int ''1'' = Some p \<and> 1 \<le> p" by (simp add: py_int_examples)
  show ?thesis
    using p unknown_entity_single_error [of "''R2''" "''A''" "''1''" scenario]
      unknown_entity_single_error [of "''R1''" "''Z''" "''1''" scenario]
      unknown_entity_single_error [of "''R2''" "''Z''" "''1''" scenario]
    by (simp add: scenario_lookups)
qed

section \<open>Standings\<close>

lemma mset_py_sorted_reverse: "mset (py_sorted_reverse key xs) = mset xs"
  by (simp add: py_sorted_reverse_def)

lemma set_py_sorted_reverse: "set (py_sorted_reverse key xs) = set xs"
  by (simp add: py_sorted_reverse_def)

lemma length_py_sorted_reverse: "length (py_sorted_reverse key xs) = length xs"
  by (simp add: py_sorted_reverse_def)

lemma distinct_py_sorted_reverse: "distinct (py_sorted_reverse key xs) = distinct xs"
  by (simp add: py_sorted_reverse_def)

lemma sorted_py_sorted_reverse:
  "sorted_wrt (\<lambda>a b. key b \<le> key a) (py_sorted_reverse key xs)"
proof -
  have "sorted (map key (sort_key key (rev xs)))" by (rule sorted_sort_key)
  then have "sorted_wrt (\<lambda>a b. key a \<le> key b) (sort_key key (rev xs))"
    by (simp add: sorted_map)
  then show ?thesis
    by (simp add: py_sorted_reverse_def sorted_wrt_rev)
qed

lemma stable_py_sorted_reverse:
  "filter (\<lambda>x. key x = k) (py_sorted_reverse key xs) = filter (\<lambda>x. key x = k) xs"
proof -
  have "filter (\<lambda>x. key x = k) (py_sorted_reverse key xs) =
        rev (filter (\<lambda>x. key x = k) (sort_key key (rev xs)))"
    by (simp add: py_sorted_reverse_def rev_filter)
  also have "\<dots> = rev (filter (\<lambda>x. key x = k) (rev xs))"
    by (simp only: sort_key_stable)
  also have "\<dots> = filter (\<lambda>x. key x = k) xs"
    by (simp add: rev_filter)
  finally show ?thesis .
qed

lemma map_snd_py_enumerate: "map snd (py_enumerate i xs) = xs"
  by (induction xs arbitrary: i) auto

lemma length_py_enumerate: "length (py_enumerate i xs) = length xs"
  by (induction xs arbitrary: i) auto

lemma map_fst_py_enumerate: "map fst (py_enumerate i xs) = [i .. i + int (length xs) - 1]"
proof (induction xs arbitrary: i)
  case Nil
  then show ?case by simp
next
  case (Cons x xs)
  have "[i .. i + int (length (x # xs)) - 1] = i # [i + 1 .. i + 1 + int (length xs) - 1]"
    by (subst upto_rec1) (simp_all add: algebra_simps)
  with Cons.IH [of "i + 1"] show ?case by simp
qed

text \<open>
  Claim C6. In every state, \<^verbatim>\<open>display_team_standings\<close> prints the registered
  teams, each once, in the order of non-increasing points, numbered
  1, 2, ..., N where N is the number of registered teams (the ranks are the
  list from 1 to N, so none is missing or repeated), and it leaves the state,
  hence every Team object, as it was.
\<close>

theorem team_standings_ranked:
  assumes "display_team_standings s = (out, s')"
  shows "map fst out = [1 .. int (length (teams_dict s))] \<and>
         mset (map snd out) = mset (dict_values (teams_dict s)) \<and>
         sorted_wrt (\<lambda>a b. t_points (team_store s b) \<le> t_points (team_store s a))
           (map snd out) \<and>
         s' = s"
proof -
  from assms have out:
    "out = py_enumerate 1 (py_sorted_reverse (\<lambda>team. t_points (team_store s team))
             (dict_values (teams_dict s)))"
    and s': "s' = s"
    by (auto simp: display_team_standings_def Let_def)
  have "map fst out = [1 .. int (length (teams_dict s))]"
    by (simp add: out map_fst_py_enumerate length_py_sorted_reverse dict_values_def)
  moreover have "mset (map snd out) = mset (dict_values (teams_dict s))"
    by (simp add: out map_snd_py_enumerate mset_py_sorted_reverse)
  moreover have "sorted_wrt (\<lambda>a b. t_points (team_store s b) \<le> t_points (team_store s a))
           (map snd out)"
    unfolding out map_snd_py_enumerate by (rule sorted_py_sorted_reverse)
  ultimately show ?thesis using s' by simp
qed

theorem team_standings_ranked_witness:
  "display_team_standings scenario_scored = ([(1, 1), (2, 0)], scenario_scored) \<and>
   map fst [(1::int, 1::nat), (2, 0)] = [1 .. int (length (teams_dict scenario_scored))] \<and>
   mset (map snd [(1::int, 1::nat), (2, 0)]) = mset (dict_values (teams_dict scenario_scored)) \<and>
   sorted_wrt (\<lambda>a b. t_points (team_store scenario_scored b)
                         \<le> t_points (team_store scenario_scored a))
     (map snd [(1::int, 1::nat), (2, 0)])"
proof -
  have "fst (display_team_standings scenario_scored) = [(1, 1), (2, 0)]"
    by code_simp
  moreover have "snd (display_team_standings scenario_scored) = scenario_scored"
    by (simp add: display_team_standings_def Let_def)
  ultimately have h: "display_team_standings scenario_scored = ([(1, 1), (2, 0)], scenario_scored)"
    by (simp add: prod_eq_iff)
  from team_standings_ranked [OF h] h show ?thesis by simp
qed

lemma set_position_apply:
  "driver_store (set_position s p) d =
     (if d = snd p then (driver_store s d)\<lparr>d_position := Some (fst p)\<rparr> else driver_store s d)"
  by (simp add: set_position_def)

lemma foldl_set_position_other:
  "d \<notin> snd ` set ps \<Longrightarrow> driver_store (foldl set_position s ps) d = driver_store s d"
  by (induction ps arbitrary: s) (auto simp: set_position_apply)

lemma foldl_set_position_at:
  "distinct (map snd ps) \<Longrightarrow> (i, d) \<in> set ps \<Longrightarrow>
   driver_store (foldl set_position s ps) d = (driver_store s d)\<lparr>d_position := Some i\<rparr>"
proof (induction ps arbitrary: s)
  case Nil
  then show ?case by simp
next
  case (Cons p ps)
  show ?case
  proof (cases "p = (i, d)")
    case True
    with Cons.prems have "d \<notin> snd ` set ps" by auto
    then have "driver_store (foldl set_position (set_position s p) ps) d =
               driver_store (set_position s p) d"
      by (rule foldl_set_position_other)
    with True show ?thesis by (simp add: set_position_apply)
  next
    case False
    with Cons.prems have in_ps: "(i, d) \<in> set ps" and dist: "distinct (map snd ps)"
      and ne: "snd p \<noteq> d" by (auto simp: rev_image_eqI)
    from Cons.IH [OF dist in_ps, of "set_position s p"] ne show ?thesis
      by (simp add: set_position_apply)
  qed
qed

lemma foldl_set_position_state:
  "foldl set_position s ps = s\<lparr>driver_store := driver_store (foldl set_position s ps)\<rparr>"
  by (rule state.equality) (simp_all add: foldl_set_position_fields)

lemma positions_after_enumerate:
  assumes "distinct xs"
  shows "map (\<lambda>d. d_position (driver_store (foldl set_position s (py_enumerate i xs)) d)) xs =
         map Some [i .. i + int (length xs) - 1]"
proof -
  let ?ps = "py_enumerate i xs"
  let ?s' = "foldl set_position s ?ps"
  have dist: "distinct (map snd ?ps)" using assms by (simp add: map_snd_py_enumerate)
  have "map (\<lambda>d. d_position (driver_store ?s' d)) (map snd ?ps) = map (\<lambda>p. Some (fst p)) ?ps"
    unfolding map_map
  proof (rule map_cong [OF refl])
    fix p assume "p \<in> set ?ps"
    then have "(fst p, snd p) \<in> set ?ps" by simp
    from foldl_set_position_at [OF dist this, of s]
    show "((\<lambda>d. d_position (driver_store ?s' d)) \<circ> snd) p = Some (fst p)" by simp
  qed
  also have "\<dots> = map Some (map fst ?ps)" by simp
  finally show ?thesis by (simp add: map_snd_py_enumerate map_fst_py_enumerate)
qed

text \<open>
  Claim C3. In every state \<open>s\<close> that the menu commands reach from the initial
  state, with N registered drivers, \<^verbatim>\<open>display_driver_position\<close> prints the
  registered drivers, each once, in the order of non-increasing points, and
  the \<^verbatim>\<open>position\<close> fields of the printed drivers read 1, 2, ..., N in that
  order. Nothing else changes: a Driver object that is printed differs from
  what it was in \<^verbatim>\<open>position\<close> at most, every other Driver object and every
  other part of the state is as before. With no registered driver the list
  is empty and the state is as before.
\<close>

theorem driver_standings_sorted_and_numbered:
  assumes "s = run cmds init_state" and "display_driver_position s = (out, s')"
  shows "mset out = mset (dict_values (drivers_dict s)) \<and>
     sorted_wrt (\<lambda>a b. d_points (driver_store s' b) \<le> d_points (driver_store s' a)) out \<and>
     map (\<lambda>d. d_position (driver_store s' d)) out =
       map Some [1 .. int (length (drivers_dict s))] \<and>
     (\<forall>d. driver_store s' d =
        (if d \<in> set out
         then (driver_store s d)\<lparr>d_position := d_position (driver_store s' d)\<rparr>
         else driver_store s d)) \<and>
     s' = s\<lparr>driver_store := driver_store s'\<rparr> \<and>
     (drivers_dict s = [] \<longrightarrow> out = [] \<and> s' = s)"
proof -
  let ?key = "\<lambda>driver. d_points (driver_store s driver)"
  from assms(2) have out: "out = py_sorted_reverse ?key (dict_values (drivers_dict s))"
    and s': "s' = foldl set_position s (py_enumerate 1 out)"
    by (auto simp: display_driver_position_def Let_def)
  have "wf_state s" unfolding assms(1) by (rule wf_run)
  then have "distinct (dict_values (drivers_dict s))" by (simp add: wf_state_def)
  then have dist: "distinct out" by (simp add: out distinct_py_sorted_reverse)
  have len: "length out = length (drivers_dict s)"
    by (simp add: out length_py_sorted_reverse dict_values_def)
  have pts: "\<And>d. d_points (driver_store s' d) = d_points (driver_store s d)"
    by (simp add: s' foldl_set_position_fields)
  have 1: "mset out = mset (dict_values (drivers_dict s))"
    by (simp add: out mset_py_sorted_reverse)
  have 2: "sorted_wrt (\<lambda>a b. d_points (driver_store s' b) \<le> d_points (driver_store s' a)) out"
    unfolding pts out by (rule sorted_py_sorted_reverse)
  have 3: "map (\<lambda>d. d_position (driver_store s' d)) out =
       map Some [1 .. int (length (drivers_dict s))]"
    using positions_after_enumerate [OF dist, of s 1] by (simp add: s' len)
  have 4: "driver_store s' d =
        (if d \<in> set out
         then (driver_store s d)\<lparr>d_position := d_position (driver_store s' d)\<rparr>
         else driver_store s d)" for d
  proof (cases "d \<in> set out")
    case True
    then have "d \<in> snd ` set (py_enumerate 1 out)"
      by (metis map_snd_py_enumerate set_map)
    then obtain i where "(i, d) \<in> set (py_enumerate 1 out)" by auto
    from foldl_set_position_at [OF _ this, of s] dist True show ?thesis
      by (simp add: s' map_snd_py_enumerate)
  next
    case False
    then have "d \<notin> snd ` set (py_enumerate 1 out)"
      by (metis map_snd_py_enumerate set_map)
    from foldl_set_position_other [OF this, of s] False show ?thesis by (simp add: s')
  qed
  have 5: "s' = s\<lparr>driver_store := driver_store s'\<rparr>"
    unfolding s' by (rule foldl_set_position_state)
  have 6: "drivers_dict s = [] \<longrightarrow> out = [] \<and> s' = s"
    by (simp add: s' out dict_values_def py_sorted_reverse_def)
  from 1 2 3 4 5 6 show ?thesis by blast
qed

lemma scenario_scored_run:
  "scenario_scored =
     run [AddDriver ''A'' ''T1'', AddDriver ''B'' ''T2'', AddRace ''R1'',
          RecordResult ''R1'' ''B'' ''1'', RecordResult ''R1'' ''A'' ''2''] init_state"
  by (simp add: scenario_scored_def scenario_def)

lemma scenario_scored_standings: "fst (display_driver_position scenario_scored) = [1, 0]"
  by code_simp

theorem driver_standings_sorted_and_numbered_witness:
  "scenario_scored =
     run [AddDriver ''A'' ''T1'', AddDriver ''B'' ''T2'', AddRace ''R1'',
          RecordResult ''R1'' ''B'' ''1'', RecordResult ''R1'' ''A'' ''2''] init_state \<and>
   (\<exists>s'. display_driver_position scenario_scored = ([1, 0], s') \<and>
      mset [1, 0] = mset (dict_values (drivers_dict scenario_scored)) \<and>
      sorted_wrt (\<lambda>a b. d_points (driver_store s' b) \<le> d_points (driver_store s' a)) [1, 0] \<and>
      map (\<lambda>d. d_position (driver_store s' d)) [1, 0] = [Some 1, Some 2] \<and>
      s' = scenario_scored\<lparr>driver_store := driver_store s'\<rparr>) \<and>
   drivers_dict (run [] init_state) = [] \<and>
   display_driver_position (run [] init_state) = ([], run [] init_state)"
proof -
  have e: "drivers_dict (run [] init_state) = []" by (simp add: init_state_def)
  obtain out0 s0 where h0: "display_driver_position (run [] init_state) = (out0, s0)"
    by (cases "display_driver_position (run [] init_state)")
  from driver_standings_sorted_and_numbered [OF refl h0] e
  have "out0 = [] \<and> s0 = run [] init_state" by blast
  with h0 have empty: "display_driver_position (run [] init_state) = ([], run [] init_state)"
    by simp
  obtain s' where h: "display_driver_position scenario_scored = ([1, 0], s')"
    using scenario_scored_standings by (cases "display_driver_position scenario_scored") simp
  have n: "length (drivers_dict scenario_scored) = 2" by code_simp
  have u: "[1 .. 2 :: int] = [1, 2]" by (simp add: upto_rec1)
  from driver_standings_sorted_and_numbered [OF scenario_scored_run h] h
  have "\<exists>s'. display_driver_position scenario_scored = ([1, 0], s') \<and>
      mset [1, 0] = mset (dict_values (drivers_dict scenario_scored)) \<and>
      sorted_wrt (\<lambda>a b. d_points (driver_store s' b) \<le> d_points (driver_store s' a)) [1, 0] \<and>
      map (\<lambda>d. d_position (driver_store s' d)) [1, 0] = [Some 1, Some 2] \<and>
      s' = scenario_scored\<lparr>driver_store := driver_store s'\<rparr>"
    by (auto simp: n u)
  with scenario_scored_run e empty show ?thesis by (intro conjI)
qed

section \<open>Registering drivers and the order of the driver dictionary\<close>

lemma get_or_create_team_frame:
  assumes "get_or_create_team team_name s = (t, s1)"
  shows "driver_store s1 = driver_store s" "driver_count s1 = driver_count s"
    "drivers_dict s1 = drivers_dict s" "race_store s1 = race_store s"
    "race_count s1 = race_count s" "race_dict s1 = race_dict s"
  using assms by (auto simp: get_or_create_team_def split: option.splits)

lemma add_driver_step_Inr:
  assumes "get_or_create_team team_name s = (t, s1)"
  shows "add_driver_step name team_name s = Inr s' \<longleftrightarrow>
     name \<noteq> [] \<and> team_name \<noteq> [] \<and>
     s' = s1\<lparr>driver_store := (driver_store s1)(driver_count s1 := new_driver name t),
             driver_count := Suc (driver_count s1),
             drivers_dict := dict_set (drivers_dict s1) name (driver_count s1),
             team_store := (team_store s1)
               (t := (team_store s1 t)\<lparr>t_drivers := t_drivers (team_store s1 t) @ [driver_count s1]\<rparr>)\<rparr>"
  using assms by (auto simp: add_driver_step_def Let_def)

lemma add_driver_step_dict:
  assumes "add_driver_step name team_name s = Inr s'"
  shows "drivers_dict s' = dict_set (drivers_dict s) name (driver_count s)"
    "driver_count s' = Suc (driver_count s)"
    "race_store s' = race_store s" "race_count s' = race_count s" "race_dict s' = race_dict s"
proof -
  obtain t s1 where g: "get_or_create_team team_name s = (t, s1)"
    by (cases "get_or_create_team team_name s")
  from assms show "drivers_dict s' = dict_set (drivers_dict s) name (driver_count s)"
    "driver_count s' = Suc (driver_count s)"
    "race_store s' = race_store s" "race_count s' = race_count s" "race_dict s' = race_dict s"
    by (simp_all add: add_driver_step_Inr [OF g] get_or_create_team_frame [OF g])
qed

lemma add_driver_step_Inl:
  "add_driver_step name team_name s = Inl e \<longleftrightarrow>
     (name = [] \<or> team_name = []) \<and> e = InvalidInput"
  by (auto simp: add_driver_step_def Let_def split: prod.splits)

lemma drivers_dict_exec:
  "drivers_dict (exec c s) =
     (case c of
        AddDriver name team_name \<Rightarrow>
          if name = [] \<or> team_name = [] then drivers_dict s
          else dict_set (drivers_dict s) name (driver_count s)
      | _ \<Rightarrow> drivers_dict s)"
proof (cases c)
  case (AddRace name)
  then show ?thesis by (simp add: add_race_step_def)
next
  case (AddDriver name team_name)
  show ?thesis
  proof (cases "add_driver_step name team_name s")
    case (Inl e)
    then have "name = [] \<or> team_name = []" by (simp add: add_driver_step_Inl)
    with AddDriver Inl show ?thesis by simp
  next
    case (Inr s')
    then have "name \<noteq> [] \<and> team_name \<noteq> []"
      by (auto simp: add_driver_step_def split: if_splits)
    with AddDriver Inr add_driver_step_dict(1) [OF Inr] show ?thesis by simp
  qed
next
  case (RecordResult race_name driver_name position)
  show ?thesis
  proof (cases "record_race_result_step race_name driver_name position s")
    case (Inl e)
    with RecordResult show ?thesis by simp
  next
    case (Inr s')
    then have "drivers_dict s' = drivers_dict s" by (auto simp: record_step_Inr)
    with Inr RecordResult show ?thesis by simp
  qed
next
  case DisplayPosition
  then show ?thesis
    by (simp add: display_driver_position_def Let_def foldl_set_position_fields)
next
  case DisplayStandings
  then show ?thesis by (simp add: display_team_standings_def Let_def)
qed

lemma keys_run:
  "map fst (drivers_dict (run cs s)) =
     first_registrations (map fst (drivers_dict s)) (registered_names cs)"
proof (induction cs arbitrary: s)
  case Nil
  then show ?case by simp
next
  case (Cons c cs)
  show ?case
  proof (cases c)
    case (AddDriver name team_name)
    then show ?thesis
      by (simp add: Cons.IH drivers_dict_exec keys_dict_set dict_get_None_iff del: exec.simps)
  qed (simp_all add: Cons.IH drivers_dict_exec del: exec.simps)
qed

text \<open>
  Claim C10. In every state that the menu commands reach from the initial
  state, the drivers that \<^verbatim>\<open>display_driver_position\<close> prints with any given
  number of points stand in the order in which \<^verbatim>\<open>drivers_dict\<close> holds them
  (the sort is stable), and \<^verbatim>\<open>drivers_dict\<close> holds the names in the order in
  which they were registered for the first time. Among drivers with equal
  points the order is therefore fixed, and it is the order of registration.
\<close>

theorem driver_standings_ties_in_registration_order:
  "filter (\<lambda>d. d_points (driver_store (run cmds init_state) d) = k)
     (fst (display_driver_position (run cmds init_state))) =
   filter (\<lambda>d. d_points (driver_store (run cmds init_state) d) = k)
     (dict_values (drivers_dict (run cmds init_state))) \<and>
   map fst (drivers_dict (run cmds init_state)) =
     first_registrations [] (registered_names cmds)"
proof
  show "filter (\<lambda>d. d_points (driver_store (run cmds init_state) d) = k)
     (fst (display_driver_position (run cmds init_state))) =
   filter (\<lambda>d. d_points (driver_store (run cmds init_state) d) = k)
     (dict_values (drivers_dict (run cmds init_state)))"
    by (simp add: display_driver_position_def Let_def stable_py_sorted_reverse)
  show "map fst (drivers_dict (run cmds init_state)) =
     first_registrations [] (registered_names cmds)"
    by (simp add: keys_run init_state_def)
qed

theorem driver_standings_ties_in_registration_order_witness:
  "filter (\<lambda>d. d_points (driver_store
       (run [AddDriver ''A'' ''T1'', AddDriver ''B'' ''T2'', AddDriver ''C'' ''T1'',
             AddDriver ''A'' ''T2'', AddRace ''R1'', RecordResult ''R1'' ''B'' ''1'']
          init_state) d) = 0)
     (fst (display_driver_position
       (run [AddDriver ''A'' ''T1'', AddDriver ''B'' ''T2'', AddDriver ''C'' ''T1'',
             AddDriver ''A'' ''T2'', AddRace ''R1'', RecordResult ''R1'' ''B'' ''1'']
          init_state))) = [3, 2] \<and>
   map fst (drivers_dict
       (run [AddDriver ''A'' ''T1'', AddDriver ''B'' ''T2'', AddDriver ''C'' ''T1'',
             AddDriver ''A'' ''T2'', AddRace ''R1'', RecordResult ''R1'' ''B'' ''1'']
          init_state)) = [''A'', ''B'', ''C'']"
proof -
  let ?cs = "[AddDriver ''A'' ''T1'', AddDriver ''B'' ''T2'', AddDriver ''C'' ''T1'',
             AddDriver ''A'' ''T2'', AddRace ''R1'', RecordResult ''R1'' ''B'' ''1'']"
  have v: "filter (\<lambda>d. d_points (driver_store (run ?cs init_state) d) = 0)
             (dict_values (drivers_dict (run ?cs init_state))) = [3, 2]"
    by code_simp
  have n: "first_registrations [] (registered_names ?cs) = [''A'', ''B'', ''C'']"
    by simp
  from driver_standings_ties_in_registration_order [of ?cs 0]
  show ?thesis unfolding v n .
qed

section \<open>Points follow the scoring table\<close>

lemma awarded_cong:
  assumes "drivers_dict s1 = drivers_dict s"
  shows "awarded s1 d calls = awarded s d calls"
proof -
  have "call_points s1 d = call_points s d"
    by (rule ext) (simp add: call_points_def assms)
  then show ?thesis by (simp add: awarded_def)
qed

lemma record_step_points:
  assumes "record_race_result_step race_name driver_name position s = Inr s1"
  shows "d_points (driver_store s1 d) =
         d_points (driver_store s d) + call_points s d (race_name, driver_name, position)"
proof -
  from assms obtain p race driver where h: "py_int position = Some p"
    "dict_get (race_dict s) race_name = Some race"
    "dict_get (drivers_dict s) driver_name = Some driver"
    by (auto simp: record_step_Inr)
  from record_step_fields(2) [OF assms h(2,3,1)] h show ?thesis
    by (simp add: call_points_def)
qed

lemma record_all_points:
  "record_all calls s = Inr s' \<Longrightarrow>
   d_points (driver_store s' d) = d_points (driver_store s d) + awarded s d calls"
proof (induction calls arbitrary: s)
  case Nil
  then show ?case by (simp add: awarded_def)
next
  case (Cons c calls)
  obtain race_name driver_name position where c: "c = (race_name, driver_name, position)"
    by (cases c)
  from Cons.prems c obtain s1 where
    s1: "record_race_result_step race_name driver_name position s = Inr s1"
    and rest: "record_all calls s1 = Inr s'"
    by (auto split: sum.splits)
  from s1 have "drivers_dict s1 = drivers_dict s" by (auto simp: record_step_Inr)
  then have "awarded s1 d calls = awarded s d calls" by (rule awarded_cong)
  with Cons.IH [OF rest] record_step_points [OF s1, of d] c show ?case
    by (simp add: awarded_def)
qed

lemma record_step_out_of_table:
  assumes "dict_get (race_dict s) race_name = Some race"
    and "dict_get (drivers_dict s) driver_name = Some driver"
    and "py_int position = Some p" and "10 < p"
  shows "\<exists>s1. record_race_result_step race_name driver_name position s = Inr s1 \<and>
           driver_store s1 = driver_store s \<and> team_store s1 = team_store s \<and>
           r_results (race_store s1 race) =
             r_results (race_store s race) @ [\<lparr>rr_driver = driver, rr_position = p\<rparr>]"
proof -
  from assms obtain s1 where
    s1: "record_race_result_step race_name driver_name position s = Inr s1"
    by (auto simp: record_step_Inr)
  from assms(4) have z: "point_scale_get p = 0" by (simp add: point_scale_get_outside)
  from record_step_fields(1,2,3) [OF s1 assms(1,2,3)] z
  have "driver_store s1 = driver_store s \<and> team_store s1 = team_store s \<and>
           r_results (race_store s1 race) =
             r_results (race_store s race) @ [\<lparr>rr_driver = driver, rr_position = p\<rparr>]"
    by simp
  with s1 show ?thesis by blast
qed

text \<open>
  Claim C1. After a sequence of \<^verbatim>\<open>record_race_result\<close> entries that all
  succeed, the points of every Driver object are its points before the
  sequence plus the sum, over the entries that name it, of the scoring
  table's value at the entry's position; a driver who starts with no points
  ends with exactly that sum. The table's values at the positions 1 to 10 are
  25, 18, 15, 12, 10, 8, 6, 4, 2, 1, and at every other position the value is
  0. An entry for a registered race and driver with a position above 10 still
  succeeds and appends its result to the race, and changes no Driver and no
  Team object. (An entry with a position below 1 does not succeed.)
\<close>

theorem recorded_points_follow_scoring_table:
  "(record_all calls s = Inr s' \<longrightarrow>
      (\<forall>d. d_points (driver_store s' d) = d_points (driver_store s d) + awarded s d calls)) \<and>
   map point_scale_get [1, 2, 3, 4, 5, 6, 7, 8, 9, 10] = [25, 18, 15, 12, 10, 8, 6, 4, 2, 1] \<and>
   (\<forall>p. p < 1 \<or> 10 < p \<longrightarrow> point_scale_get p = 0) \<and>
   (\<forall>race driver p.
      dict_get (race_dict s) race_name = Some race \<and>
      dict_get (drivers_dict s) driver_name = Some driver \<and>
      py_int position = Some p \<and> 10 < p \<longrightarrow>
      (\<exists>s1. record_race_result_step race_name driver_name position s = Inr s1 \<and>
         driver_store s1 = driver_store s \<and> team_store s1 = team_store s \<and>
         r_results (race_store s1 race) =
           r_results (race_store s race) @ [\<lparr>rr_driver = driver, rr_position = p\<rparr>]))"
proof (intro conjI impI allI)
  fix d assume "record_all calls s = Inr s'"
  then show "d_points (driver_store s' d) = d_points (driver_store s d) + awarded s d calls"
    by (rule record_all_points)
next
  show "map point_scale_get [1, 2, 3, 4, 5, 6, 7, 8, 9, 10] = [25, 18, 15, 12, 10, 8, 6, 4, 2, 1]"
    by (simp add: point_scale_get_cases)
next
  fix p :: int assume "p < 1 \<or> 10 < p"
  then show "point_scale_get p = 0" by (rule point_scale_get_outside)
next
  fix race driver p
  assume "dict_get (race_dict s) race_name = Some race \<and>
      dict_get (drivers_dict s) driver_name = Some driver \<and>
      py_int position = Some p \<and> 10 < p"
  then show "\<exists>s1. record_race_result_step race_name driver_name position s = Inr s1 \<and>
         driver_store s1 = driver_store s \<and> team_store s1 = team_store s \<and>
         r_results (race_store s1 race) =
           r_results (race_store s race) @ [\<lparr>rr_driver = driver, rr_position = p\<rparr>]"
    using record_step_out_of_table by blast
qed

lemma scenario_record_all_ok:
  "\<not> isl (record_all [(''R1'', ''A'', ''1''), (''R1'', ''B'', ''2''), (''R1'', ''A'', ''3'')] scenario)"
  by code_simp

theorem recorded_points_follow_scoring_table_witness:
  "(\<exists>s'. record_all [(''R1'', ''A'', ''1''), (''R1'', ''B'', ''2''), (''R1'', ''A'', ''3'')] scenario
            = Inr s' \<and>
      d_points (driver_store s' 0) = 25 + 15 \<and> d_points (driver_store s' 1) = 18) \<and>
   (\<exists>s1. record_race_result_step ''R1'' ''A'' ''11'' scenario = Inr s1 \<and>
      driver_store s1 = driver_store scenario \<and> team_store s1 = team_store scenario \<and>
      r_results (race_store s1 0) = [\<lparr>rr_driver = 0, rr_position = 11\<rparr>])"
proof -
  let ?calls = "[(''R1'', ''A'', ''1''), (''R1'', ''B'', ''2''), (''R1'', ''A'', ''3'')]"
  from scenario_record_all_ok obtain s' where h: "record_all ?calls scenario = Inr s'"
    by (cases "record_all ?calls scenario") auto
  have v: "d_points (driver_store scenario 0) = 0" "d_points (driver_store scenario 1) = 0"
    "awarded scenario 0 ?calls = 40" "awarded scenario 1 ?calls = 18"
    "r_results (race_store scenario 0) = []"
    by code_simp+
  from recorded_points_follow_scoring_table [of ?calls scenario s'] h v
  have a: "d_points (driver_store s' 0) = 25 + 15 \<and> d_points (driver_store s' 1) = 18"
    by simp
  from recorded_points_follow_scoring_table [of ?calls scenario s' "''R1''" "''A''" "''11''"]
  have "\<exists>s1. record_race_result_step ''R1'' ''A'' ''11'' scenario = Inr s1 \<and>
      driver_store s1 = driver_store scenario \<and> team_store s1 = team_store scenario \<and>
      r_results (race_store s1 0) = [\<lparr>rr_driver = 0, rr_position = 11\<rparr>]"
    by (simp add: scenario_lookups py_int_examples v)
  with h a show ?thesis by blast
qed

section \<open>Registering a name again\<close>

text \<open>
  Claim C9. Let \<open>s\<close> be a state that the menu commands reach from the initial
  state, in which \<^verbatim>\<open>drivers_dict\<close> holds a Driver object \<open>old\<close> under
  \<open>name\<close>, whose team \<open>t\<close> is called \<open>team_name\<close>. Registering \<open>name\<close> on
  \<open>team_name\<close> again succeeds; \<^verbatim>\<open>drivers_dict\<close> then holds under \<open>name\<close>, in
  the same slot, a fresh Driver object of team \<open>t\<close> with no points and no
  position; the old object is not touched, so its points are not carried
  over; and the fresh object is appended to the \<^verbatim>\<open>drivers\<close> list of \<open>t\<close>, which
  still holds the old object: the list has one more entry called \<open>name\<close>
  than before, hence at least two.
\<close>

theorem reregistering_a_driver:
  assumes "s = run cmds init_state"
    and "dict_get (drivers_dict s) name = Some old"
    and "t = d_team (driver_store s old)"
    and "team_name = t_name (team_store s t)"
  shows "\<exists>s'. add_driver_step name team_name s = Inr s' \<and>
     dict_get (drivers_dict s') name = Some (driver_count s) \<and>
     map fst (drivers_dict s') = map fst (drivers_dict s) \<and>
     driver_count s \<noteq> old \<and>
     driver_store s' (driver_count s) =
       \<lparr>d_name = name, d_team = t, d_points = 0, d_position = None\<rparr> \<and>
     driver_store s' old = driver_store s old \<and>
     d_name (driver_store s' old) = name \<and>
     old \<in> set (t_drivers (team_store s t)) \<and>
     t_drivers (team_store s' t) = t_drivers (team_store s t) @ [driver_count s] \<and>
     length (filter (\<lambda>d. d_name (driver_store s' d) = name) (t_drivers (team_store s' t))) =
       length (filter (\<lambda>d. d_name (driver_store s d) = name) (t_drivers (team_store s t))) + 1 \<and>
     2 \<le> length (filter (\<lambda>d. d_name (driver_store s' d) = name) (t_drivers (team_store s' t)))"
proof -
  have wf: "wf_state s" unfolding assms(1) by (rule wf_run)
  from assms(2) have mem: "(name, old) \<in> set (drivers_dict s)" by (rule dict_get_in_set)
  with wf have old: "old < driver_count s" "d_name (driver_store s old) = name" "name \<noteq> []"
    by (auto simp: wf_state_def)
  with wf assms(3) have t: "t < team_count s" by (simp add: wf_state_def)
  with wf assms(4) have tn: "team_name \<noteq> []" "dict_get (teams_dict s) team_name = Some t"
    and roster: "set (t_drivers (team_store s t)) =
                   {d. d < driver_count s \<and> d_team (driver_store s d) = t}"
    by (simp_all add: wf_state_def)
  from tn(2) have g: "get_or_create_team team_name s = (t, s)"
    by (simp add: get_or_create_team_def)
  define s' where "s' = s\<lparr>driver_store := (driver_store s)(driver_count s := new_driver name t),
             driver_count := Suc (driver_count s),
             drivers_dict := dict_set (drivers_dict s) name (driver_count s),
             team_store := (team_store s)
               (t := (team_store s t)\<lparr>t_drivers := t_drivers (team_store s t) @ [driver_count s]\<rparr>)\<rparr>"
  have step: "add_driver_step name team_name s = Inr s'"
    by (simp add: add_driver_step_Inr [OF g] old(3) tn(1) s'_def)
  have in_roster: "old \<in> set (t_drivers (team_store s t))"
    using roster old(1) assms(3) by simp
  have below: "\<And>d. d \<in> set (t_drivers (team_store s t)) \<Longrightarrow> d \<noteq> driver_count s"
    using roster by auto
  have names: "filter (\<lambda>d. d_name (driver_store s' d) = name) (t_drivers (team_store s t)) =
               filter (\<lambda>d. d_name (driver_store s d) = name) (t_drivers (team_store s t))"
    by (rule filter_cong [OF refl]) (simp add: s'_def below)
  have count: "length (filter (\<lambda>d. d_name (driver_store s' d) = name) (t_drivers (team_store s' t))) =
       length (filter (\<lambda>d. d_name (driver_store s d) = name) (t_drivers (team_store s t))) + 1"
  proof -
    have "t_drivers (team_store s' t) = t_drivers (team_store s t) @ [driver_count s]"
      by (simp add: s'_def)
    moreover have "d_name (driver_store s' (driver_count s)) = name"
      by (simp add: s'_def new_driver_def)
    ultimately show ?thesis by (simp add: names)
  qed
  have "old \<in> set (filter (\<lambda>d. d_name (driver_store s d) = name) (t_drivers (team_store s t)))"
    using in_roster old(2) by simp
  then have "1 \<le> length (filter (\<lambda>d. d_name (driver_store s d) = name) (t_drivers (team_store s t)))"
    by (metis One_nat_def Suc_leI length_pos_if_in_set)
  with count have two:
    "2 \<le> length (filter (\<lambda>d. d_name (driver_store s' d) = name) (t_drivers (team_store s' t)))"
    by simp
  have keys: "map fst (drivers_dict s') = map fst (drivers_dict s)"
    by (simp add: s'_def keys_dict_set assms(2))
  have rest: "dict_get (drivers_dict s') name = Some (driver_count s) \<and>
     driver_count s \<noteq> old \<and>
     driver_store s' (driver_count s) =
       \<lparr>d_name = name, d_team = t, d_points = 0, d_position = None\<rparr> \<and>
     driver_store s' old = driver_store s old \<and>
     d_name (driver_store s' old) = name \<and>
     t_drivers (team_store s' t) = t_drivers (team_store s t) @ [driver_count s]"
    using old by (simp add: s'_def dict_get_set new_driver_def)
  from step keys rest in_roster count two show ?thesis by blast
qed

theorem reregistering_a_driver_witness:
  "dict_get (drivers_dict
      (run [AddDriver ''A'' ''T1'', AddRace ''R1'', RecordResult ''R1'' ''A'' ''1''] init_state))
      ''A'' = Some 0 \<and>
   (\<exists>s'. add_driver_step ''A'' ''T1''
       (run [AddDriver ''A'' ''T1'', AddRace ''R1'', RecordResult ''R1'' ''A'' ''1''] init_state)
       = Inr s' \<and>
     dict_get (drivers_dict s') ''A'' = Some 1 \<and>
     driver_store s' 1 = \<lparr>d_name = ''A'', d_team = 0, d_points = 0, d_position = None\<rparr> \<and>
     driver_store s' 0 = \<lparr>d_name = ''A'', d_team = 0, d_points = 25, d_position = None\<rparr> \<and>
     t_drivers (team_store s' 0) = [0, 1] \<and>
     2 \<le> length (filter (\<lambda>d. d_name (driver_store s' d) = ''A'') (t_drivers (team_store s' 0))))"
proof -
  let ?s = "run [AddDriver ''A'' ''T1'', AddRace ''R1'', RecordResult ''R1'' ''A'' ''1''] init_state"
  have v: "dict_get (drivers_dict ?s) ''A'' = Some 0" "d_team (driver_store ?s 0) = 0"
    "t_name (team_store ?s 0) = ''T1''" "driver_count ?s = 1"
    "driver_store ?s 0 = \<lparr>d_name = ''A'', d_team = 0, d_points = 25, d_position = None\<rparr>"
    "t_drivers (team_store ?s 0) = [0]"
    by code_simp+
  from reregistering_a_driver [OF refl v(1) v(2) [symmetric] v(3) [symmetric]]
  have "\<exists>s'. add_driver_step ''A'' ''T1'' ?s = Inr s' \<and>
     dict_get (drivers_dict s') ''A'' = Some 1 \<and>
     driver_store s' 1 = \<lparr>d_name = ''A'', d_team = 0, d_points = 0, d_position = None\<rparr> \<and>
     driver_store s' 0 = \<lparr>d_name = ''A'', d_team = 0, d_points = 25, d_position = None\<rparr> \<and>
     t_drivers (team_store s' 0) = [0, 1] \<and>
     2 \<le> length (filter (\<lambda>d. d_name (driver_store s' d) = ''A'') (t_drivers (team_store s' 0)))"
    unfolding v by auto
  with v(1) show ?thesis by (rule conjI)
qed

section \<open>Team points\<close>

lemma sum_list_bump:
  "distinct xs \<Longrightarrow>
   sum_list (map (\<lambda>d. f d + (if d = x then c else 0)) xs) =
   sum_list (map f xs) + (if x \<in> set xs then c else (0::int))"
  by (induction xs) auto

lemma team_points_ok_init: "team_points_ok init_state"
  by (simp add: team_points_ok_def init_state_def)

lemma team_points_ok_same:
  assumes "team_points_ok s" "team_count s' = team_count s"
    and "\<And>t. team_store s' t = team_store s t"
    and "\<And>d. d_points (driver_store s' d) = d_points (driver_store s d)"
  shows "team_points_ok s'"
  using assms by (simp add: team_points_ok_def)

lemma team_points_ok_record:
  assumes wf: "wf_state s" and ok: "team_points_ok s"
    and step: "record_race_result_step race_name driver_name position s = Inr s'"
  shows "team_points_ok s'"
proof -
  from step obtain p race driver where h: "py_int position = Some p"
    "dict_get (race_dict s) race_name = Some race"
    "dict_get (drivers_dict s) driver_name = Some driver"
    by (auto simp: record_step_Inr)
  note f = record_step_fields [OF step h(2,3,1)]
  let ?tm = "d_team (driver_store s driver)"
  let ?pts = "point_scale_get p"
  from h(3) have "(driver_name, driver) \<in> set (drivers_dict s)" by (rule dict_get_in_set)
  with wf have drv: "driver < driver_count s" by (auto simp: wf_state_def)
  show ?thesis unfolding team_points_ok_def
  proof (intro allI impI)
    fix t assume "t < team_count s'"
    then have t: "t < team_count s" by (simp add: f)
    with wf have dist: "distinct (t_drivers (team_store s t))"
      and roster: "set (t_drivers (team_store s t)) =
                     {d. d < driver_count s \<and> d_team (driver_store s d) = t}"
      by (simp_all add: wf_state_def)
    from ok t have old: "t_points (team_store s t) =
        sum_list (map (\<lambda>d. d_points (driver_store s d)) (t_drivers (team_store s t)))"
      by (simp add: team_points_ok_def)
    have pts: "\<And>d. d_points (driver_store s' d) =
        d_points (driver_store s d) + (if d = driver then ?pts else 0)"
      by (simp add: f)
    have mem: "driver \<in> set (t_drivers (team_store s t)) \<longleftrightarrow> t = ?tm"
      using roster drv by auto
    have ros: "t_drivers (team_store s' t) = t_drivers (team_store s t)"
      by (simp add: f)
    have tp: "t_points (team_store s' t) =
                t_points (team_store s t) + (if t = ?tm then ?pts else 0)"
      by (simp add: f)
    have "sum_list (map (\<lambda>d. d_points (driver_store s' d)) (t_drivers (team_store s' t))) =
          sum_list (map (\<lambda>d. d_points (driver_store s d) + (if d = driver then ?pts else 0))
            (t_drivers (team_store s t)))"
      by (simp only: pts ros)
    also have "\<dots> = sum_list (map (\<lambda>d. d_points (driver_store s d)) (t_drivers (team_store s t)))
          + (if t = ?tm then ?pts else 0)"
      by (simp add: sum_list_bump [OF dist] mem)
    also have "\<dots> = t_points (team_store s' t)"
      by (simp only: tp old)
    finally show "t_points (team_store s' t) =
        sum_list (map (\<lambda>d. d_points (driver_store s' d)) (t_drivers (team_store s' t)))"
      by simp
  qed
qed

lemma team_points_ok_create_team:
  assumes "team_points_ok s"
  shows "team_points_ok (s\<lparr>team_store := (team_store s)(team_count s := new_team team_name),
             team_count := Suc (team_count s),
             teams_dict := dict_set (teams_dict s) team_name (team_count s)\<rparr>)"
  using assms by (auto simp: team_points_ok_def new_team_def less_Suc_eq)

lemma team_points_ok_append_driver:
  assumes wf: "wf_state s" and ok: "team_points_ok s" and t: "t < team_count s"
  shows "team_points_ok (s\<lparr>driver_store := (driver_store s)(driver_count s := new_driver name t),
                   driver_count := Suc (driver_count s),
                   drivers_dict := dict_set (drivers_dict s) name (driver_count s),
                   team_store := (team_store s)
                     (t := (team_store s t)\<lparr>t_drivers := t_drivers (team_store s t) @ [driver_count s]\<rparr>)\<rparr>)"
proof -
  define s' where "s' = s\<lparr>driver_store := (driver_store s)(driver_count s := new_driver name t),
                   driver_count := Suc (driver_count s),
                   drivers_dict := dict_set (drivers_dict s) name (driver_count s),
                   team_store := (team_store s)
                     (t := (team_store s t)\<lparr>t_drivers := t_drivers (team_store s t) @ [driver_count s]\<rparr>)\<rparr>"
  have "team_points_ok s'" unfolding team_points_ok_def
  proof (intro allI impI)
    fix u assume "u < team_count s'"
    then have u: "u < team_count s" by (simp add: s'_def)
    with wf have below: "\<And>d. d \<in> set (t_drivers (team_store s u)) \<Longrightarrow> d \<noteq> driver_count s"
      by (auto simp: wf_state_def)
    have same: "map (\<lambda>d. d_points (driver_store s' d)) (t_drivers (team_store s u)) =
                map (\<lambda>d. d_points (driver_store s d)) (t_drivers (team_store s u))"
      by (rule map_cong [OF refl]) (simp add: below s'_def)
    from ok u have old: "t_points (team_store s u) =
          sum_list (map (\<lambda>d. d_points (driver_store s d)) (t_drivers (team_store s u)))"
      by (simp add: team_points_ok_def)
    have new0: "d_points (driver_store s' (driver_count s)) = 0"
      by (simp add: new_driver_def s'_def)
    have tp: "t_points (team_store s' u) = t_points (team_store s u)"
      by (simp add: s'_def)
    have ros: "t_drivers (team_store s' u) =
                 (if u = t then t_drivers (team_store s u) @ [driver_count s]
                  else t_drivers (team_store s u))"
      by (simp add: s'_def)
    show "t_points (team_store s' u) =
          sum_list (map (\<lambda>d. d_points (driver_store s' d)) (t_drivers (team_store s' u)))"
    proof (cases "u = t")
      case True
      with ros have r: "t_drivers (team_store s' u) = t_drivers (team_store s u) @ [driver_count s]"
        by simp
      have "sum_list (map (\<lambda>d. d_points (driver_store s' d)) (t_drivers (team_store s' u))) =
          sum_list (map (\<lambda>d. d_points (driver_store s' d)) (t_drivers (team_store s u)))
            + d_points (driver_store s' (driver_count s))"
        unfolding r by simp
      then show ?thesis by (simp only: same new0 tp old add_0_right)
    next
      case False
      then have "t_drivers (team_store s' u) = t_drivers (team_store s u)" by (simp add: ros)
      then show ?thesis by (simp only: same tp old)
    qed
  qed
  then show ?thesis by (simp only: s'_def)
qed

lemma get_or_create_team_wf:
  assumes "wf_state s" "team_name \<noteq> []" "get_or_create_team team_name s = (t, s1)"
  shows "wf_state s1" "t < team_count s1"
proof -
  have "wf_state s1 \<and> t < team_count s1"
  proof (cases "dict_get (teams_dict s) team_name")
    case None
    with assms(3) have "s1 = s\<lparr>team_store := (team_store s)(team_count s := new_team team_name),
             team_count := Suc (team_count s),
             teams_dict := dict_set (teams_dict s) team_name (team_count s)\<rparr>" "t = team_count s"
      by (auto simp: get_or_create_team_def)
    with wf_create_team [OF assms(1,2) None] show ?thesis by simp
  next
    case (Some t')
    with assms(3) have "s1 = s" "t = t'" by (auto simp: get_or_create_team_def)
    with assms(1) Some show ?thesis by (auto simp: wf_state_def dest!: dict_get_in_set)
  qed
  then show "wf_state s1" "t < team_count s1" by simp_all
qed

lemma team_points_ok_add_driver:
  assumes wf: "wf_state s" and ok: "team_points_ok s"
    and step: "add_driver_step name team_name s = Inr s'"
  shows "team_points_ok s'"
proof -
  obtain t s1 where g: "get_or_create_team team_name s = (t, s1)"
    by (cases "get_or_create_team team_name s")
  from step have ne: "name \<noteq> []" "team_name \<noteq> []"
    and s': "s' = s1\<lparr>driver_store := (driver_store s1)(driver_count s1 := new_driver name t),
             driver_count := Suc (driver_count s1),
             drivers_dict := dict_set (drivers_dict s1) name (driver_count s1),
             team_store := (team_store s1)
               (t := (team_store s1 t)\<lparr>t_drivers := t_drivers (team_store s1 t) @ [driver_count s1]\<rparr>)\<rparr>"
    by (simp_all add: add_driver_step_Inr [OF g])
  have ok1: "team_points_ok s1"
  proof (cases "dict_get (teams_dict s) team_name")
    case None
    with g have "s1 = s\<lparr>team_store := (team_store s)(team_count s := new_team team_name),
             team_count := Suc (team_count s),
             teams_dict := dict_set (teams_dict s) team_name (team_count s)\<rparr>"
      by (auto simp: get_or_create_team_def)
    with team_points_ok_create_team [OF ok] show ?thesis by simp
  next
    case (Some t')
    with g have "s1 = s" by (auto simp: get_or_create_team_def)
    with ok show ?thesis by simp
  qed
  from get_or_create_team_wf [OF wf ne(2) g] have "wf_state s1" "t < team_count s1" .
  from team_points_ok_append_driver [OF this(1) ok1 this(2)] show ?thesis
    unfolding s' .
qed

lemma team_points_ok_exec:
  assumes "wf_state s" "team_points_ok s"
  shows "team_points_ok (exec c s)"
proof (cases c)
  case (AddRace name)
  from assms(2) show ?thesis unfolding AddRace
    by (rule team_points_ok_same) (simp_all add: add_race_step_def)
next
  case (AddDriver name team_name)
  with assms show ?thesis
    by (auto split: sum.splits intro: team_points_ok_add_driver)
next
  case (RecordResult race_name driver_name position)
  with assms show ?thesis
    by (auto split: sum.splits intro: team_points_ok_record)
next
  case DisplayPosition
  from assms(2) show ?thesis unfolding DisplayPosition
    by (rule team_points_ok_same)
      (simp_all add: display_driver_position_def Let_def foldl_set_position_fields)
next
  case DisplayStandings
  with assms(2) show ?thesis by (simp add: display_team_standings_def Let_def)
qed

lemma team_points_ok_run_from:
  "wf_state s \<Longrightarrow> team_points_ok s \<Longrightarrow> team_points_ok (run cs s)"
  by (induction cs arbitrary: s) (auto intro: team_points_ok_exec wf_exec)

lemma team_points_ok_run: "team_points_ok (run cs init_state)"
  by (rule team_points_ok_run_from [OF wf_init team_points_ok_init])

lemma driver_count_exec: "driver_count s \<le> driver_count (exec c s)"
proof (cases c)
  case (AddRace name)
  then show ?thesis by (simp add: add_race_step_def)
next
  case (AddDriver name team_name)
  then show ?thesis by (auto split: sum.splits simp: add_driver_step_dict)
next
  case (RecordResult race_name driver_name position)
  then show ?thesis by (auto split: sum.splits simp: record_step_Inr)
next
  case DisplayPosition
  then show ?thesis by (simp add: display_driver_position_def Let_def foldl_set_position_fields)
next
  case DisplayStandings
  then show ?thesis by (simp add: display_team_standings_def Let_def)
qed

lemma command_points_unused:
  assumes "wf_state s" "driver_count s \<le> d"
  shows "command_points s d c = 0"
proof (cases c)
  case (RecordResult race_name driver_name position)
  have "dict_get (drivers_dict s) driver_name \<noteq> Some d"
  proof
    assume "dict_get (drivers_dict s) driver_name = Some d"
    then have "(driver_name, d) \<in> set (drivers_dict s)" by (rule dict_get_in_set)
    with assms show False by (auto simp: wf_state_def)
  qed
  with RecordResult show ?thesis by (simp add: call_points_def split: sum.splits)
qed simp_all

lemma exec_points:
  assumes "unused_zero s"
  shows "d_points (driver_store (exec c s) d) = d_points (driver_store s d) + command_points s d c"
proof (cases c)
  case (AddRace name)
  then show ?thesis by (simp add: add_race_step_def)
next
  case (AddDriver name team_name)
  show ?thesis
  proof (cases "add_driver_step name team_name s")
    case (Inl e)
    with AddDriver show ?thesis by simp
  next
    case (Inr s')
    obtain t s1 where g: "get_or_create_team team_name s = (t, s1)"
      by (cases "get_or_create_team team_name s")
    from Inr have "driver_store s' = (driver_store s)(driver_count s := new_driver name t)"
      by (simp add: add_driver_step_Inr [OF g] get_or_create_team_frame [OF g])
    moreover from assms have "d_points (driver_store s (driver_count s)) = 0"
      by (simp add: unused_zero_def)
    ultimately have "d_points (driver_store s' d) = d_points (driver_store s d)"
      by (simp add: new_driver_def)
    with AddDriver Inr show ?thesis by simp
  qed
next
  case (RecordResult race_name driver_name position)
  show ?thesis
  proof (cases "record_race_result_step race_name driver_name position s")
    case (Inl e)
    with RecordResult show ?thesis by simp
  next
    case (Inr s')
    from record_step_points [OF Inr, of d] RecordResult Inr show ?thesis by simp
  qed
next
  case DisplayPosition
  then show ?thesis by (simp add: display_driver_position_def Let_def foldl_set_position_fields)
next
  case DisplayStandings
  then show ?thesis by (simp add: display_team_standings_def Let_def)
qed

lemma unused_zero_exec:
  assumes "wf_state s" "unused_zero s"
  shows "unused_zero (exec c s)"
  unfolding unused_zero_def
proof (intro allI impI)
  fix d assume "driver_count (exec c s) \<le> d"
  with driver_count_exec [of s c] have d: "driver_count s \<le> d" by simp
  with assms(2) have "d_points (driver_store s d) = 0" by (simp add: unused_zero_def)
  with exec_points [OF assms(2), of c d] command_points_unused [OF assms(1) d, of c]
  show "d_points (driver_store (exec c s) d) = 0" by simp
qed

lemma run_points:
  "wf_state s \<Longrightarrow> unused_zero s \<Longrightarrow>
   d_points (driver_store (run cs s) d) = d_points (driver_store s d) + awarded_run cs s d"
proof (induction cs arbitrary: s)
  case Nil
  then show ?case by simp
next
  case (Cons c cs)
  from Cons.IH [OF wf_exec [OF Cons.prems(1)] unused_zero_exec [OF Cons.prems]]
    exec_points [OF Cons.prems(2), of c d]
  show ?case by simp
qed

lemma run_points_init:
  "d_points (driver_store (run cs init_state) d) = awarded_run cs init_state d"
proof -
  have "unused_zero init_state" by (simp add: unused_zero_def init_state_def new_driver_def)
  from run_points [OF wf_init this, of cs d] show ?thesis
    by (simp add: init_state_def new_driver_def)
qed

text \<open>
  Claim C4. Let \<open>s\<close> be a state that the menu commands (registering races and
  drivers, recording results, the two standings) reach from the initial
  state, so that every recorded result has been scored once, when it was
  recorded. For every Team object \<open>t\<close> of \<open>s\<close>: the \<^verbatim>\<open>drivers\<close> list of \<open>t\<close>
  holds each Driver object whose team is \<open>t\<close> once and nothing else; the
  points of \<open>t\<close> are the sum of the points of these drivers; and they are the
  sum, over these drivers, of the points that the results recorded along the
  commands awarded to each of them. Every command keeps the first equation
  true.
\<close>

theorem team_points_are_sum_of_driver_points:
  assumes "s = run cmds init_state" and "t < team_count s"
  shows "t_points (team_store s t) =
           sum_list (map (\<lambda>d. d_points (driver_store s d)) (t_drivers (team_store s t))) \<and>
         t_points (team_store s t) =
           sum_list (map (awarded_run cmds init_state) (t_drivers (team_store s t))) \<and>
         distinct (t_drivers (team_store s t)) \<and>
         set (t_drivers (team_store s t)) =
           {d. d < driver_count s \<and> d_team (driver_store s d) = t} \<and>
         (\<forall>c. team_points_ok (exec c s))"
proof -
  have wf: "wf_state s" unfolding assms(1) by (rule wf_run)
  have ok: "team_points_ok s" unfolding assms(1) by (rule team_points_ok_run)
  from ok assms(2) have 1: "t_points (team_store s t) =
           sum_list (map (\<lambda>d. d_points (driver_store s d)) (t_drivers (team_store s t)))"
    by (simp add: team_points_ok_def)
  have "(\<lambda>d. d_points (driver_store s d)) = awarded_run cmds init_state"
    unfolding assms(1) by (rule ext) (rule run_points_init)
  with 1 have 2: "t_points (team_store s t) =
           sum_list (map (awarded_run cmds init_state) (t_drivers (team_store s t)))"
    by simp
  from wf assms(2) have 3: "distinct (t_drivers (team_store s t))"
    "set (t_drivers (team_store s t)) = {d. d < driver_count s \<and> d_team (driver_store s d) = t}"
    by (simp_all add: wf_state_def)
  have 4: "\<forall>c. team_points_ok (exec c s)"
    using team_points_ok_exec [OF wf ok] by blast
  from 1 2 3 4 show ?thesis by blast
qed

theorem team_points_are_sum_of_driver_points_witness:
  "(0::nat) < team_count
      (run [AddDriver ''A'' ''T1'', AddDriver ''B'' ''T1'', AddRace ''R1'',
            RecordResult ''R1'' ''A'' ''1'', RecordResult ''R1'' ''B'' ''2'',
            AddDriver ''A'' ''T1'', RecordResult ''R1'' ''A'' ''3'', AddRace ''R1'',
            DisplayPosition] init_state) \<and>
   t_drivers (team_store
      (run [AddDriver ''A'' ''T1'', AddDriver ''B'' ''T1'', AddRace ''R1'',
            RecordResult ''R1'' ''A'' ''1'', RecordResult ''R1'' ''B'' ''2'',
            AddDriver ''A'' ''T1'', RecordResult ''R1'' ''A'' ''3'', AddRace ''R1'',
            DisplayPosition] init_state) 0) = [0, 1, 2] \<and>
   t_points (team_store
      (run [AddDriver ''A'' ''T1'', AddDriver ''B'' ''T1'', AddRace ''R1'',
            RecordResult ''R1'' ''A'' ''1'', RecordResult ''R1'' ''B'' ''2'',
            AddDriver ''A'' ''T1'', RecordResult ''R1'' ''A'' ''3'', AddRace ''R1'',
            DisplayPosition] init_state) 0) = 25 + 18 + 15"
proof -
  let ?cs = "[AddDriver ''A'' ''T1'', AddDriver ''B'' ''T1'', AddRace ''R1'',
            RecordResult ''R1'' ''A'' ''1'', RecordResult ''R1'' ''B'' ''2'',
            AddDriver ''A'' ''T1'', RecordResult ''R1'' ''A'' ''3'', AddRace ''R1'',
            DisplayPosition]"
  have lt: "(0::nat) < team_count (run ?cs init_state)" by code_simp
  have ros: "t_drivers (team_store (run ?cs init_state) 0) = [0, 1, 2]" by code_simp
  have aw: "map (awarded_run ?cs init_state) [0, 1, 2] = [25, 18, 15]" by code_simp
  from team_points_are_sum_of_driver_points [OF refl lt]
  have "t_points (team_store (run ?cs init_state) 0) =
          sum_list (map (awarded_run ?cs init_state) (t_drivers (team_store (run ?cs init_state) 0)))"
    by blast
  then have "t_points (team_store (run ?cs init_state) 0) = 25 + 18 + 15"
    unfolding ros aw by simp
  with lt ros show ?thesis by (intro conjI)
qed

end
